theory Spec2Isabelle
  imports Main
begin

section \<open>Python values and strings\<close>

text \<open>
  The attributes of a job row hold Python values. The columns of the Job model are
  integers, strings, booleans and timestamps, every one of them nullable. A timestamp
  (a naive \<^verbatim>\<open>datetime\<close>) is the number of microseconds since 1970-01-01 00:00:00.
\<close>

datatype pyval = PNone | PBool bool | PInt int | PStr string | PDateTime int


text \<open>Decimal digits of a natural number, most significant first.\<close>

fun digits :: "nat \<Rightarrow> string" where
  "digits n = (if n < 10 then [''0123456789'' ! n]
               else digits (n div 10) @ [''0123456789'' ! (n mod 10)])"

declare digits.simps [simp del]

definition str_int :: "int \<Rightarrow> string" where
  "str_int i = (if i < 0 then CHR ''-'' # digits (nat (- i)) else digits (nat i))"

text \<open>A number printed with at least \<open>w\<close> digits, padded with zeros (\<^verbatim>\<open>%0wd\<close>).\<close>

definition zero_pad :: "nat \<Rightarrow> int \<Rightarrow> string" where
  "zero_pad w i = (let d = str_int i in replicate (w - length d) CHR ''0'' @ d)"

text \<open>
  The civil date (year, month, day) of a day number counted from 1970-01-01, in the
  proleptic Gregorian calendar that \<^verbatim>\<open>datetime\<close> uses.
\<close>

definition civil_from_days :: "int \<Rightarrow> int \<times> int \<times> int" where
  "civil_from_days z0 =
     (let z = z0 + 719468;
          era = z div 146097;
          doe = z - era * 146097;
          yoe = (doe - doe div 1460 + doe div 36524 - doe div 146096) div 365;
          doy = doe - (365 * yoe + yoe div 4 - yoe div 100);
          mp = (5 * doy + 2) div 153;
          d = doy - (153 * mp + 2) div 5 + 1;
          m = (if mp < 10 then mp + 3 else mp - 9);
          y = yoe + era * 400 + (if m \<le> 2 then 1 else 0)
      in (y, m, d))"

text \<open>
  \<^verbatim>\<open>str(datetime)\<close>: \<^verbatim>\<open>YYYY-MM-DD HH:MM:SS\<close>, followed by \<^verbatim>\<open>.ffffff\<close> when
  the microseconds are not zero.
\<close>

definition str_datetime :: "int \<Rightarrow> string" where
  "str_datetime t =
     (let us = t mod 1000000;
          secs = t div 1000000;
          sod = secs mod 86400;
          (y, m, d) = civil_from_days (secs div 86400)
      in zero_pad 4 y @ ''-'' @ zero_pad 2 m @ ''-'' @ zero_pad 2 d @ '' ''
         @ zero_pad 2 (sod div 3600) @ '':'' @ zero_pad 2 (sod mod 3600 div 60) @ '':''
         @ zero_pad 2 (sod mod 60)
         @ (if us = 0 then [] else ''.'' @ zero_pad 6 us))"

text \<open>\<^verbatim>\<open>str(value)\<close>, which is also how an f-string formats the value.\<close>

fun py_str :: "pyval \<Rightarrow> string" where
  "py_str PNone = ''None''"
| "py_str (PBool b) = (if b then ''True'' else ''False'')"
| "py_str (PInt n) = str_int n"
| "py_str (PStr s) = s"
| "py_str (PDateTime t) = str_datetime t"

text \<open>\<^verbatim>\<open>sub in s\<close> on strings: \<open>sub\<close> occurs in \<open>s\<close> as a contiguous run.\<close>

fun contains :: "string \<Rightarrow> string \<Rightarrow> bool" where
  "contains sub [] = (sub = [])"
| "contains sub (c # cs) = (take (length sub) (c # cs) = sub \<or> contains sub cs)"

text \<open>
  \<^verbatim>\<open>str.lower()\<close> on the ASCII letters. No character outside ASCII lowers to one
  of the letters of \<^verbatim>\<open>true\<close>, the only word a lowered string is compared with.
\<close>

definition lower_char :: "char \<Rightarrow> char" where
  "lower_char c =
     (case map_of (zip ''ABCDEFGHIJKLMNOPQRSTUVWXYZ'' ''abcdefghijklmnopqrstuvwxyz'') c of
        Some l \<Rightarrow> l
      | None \<Rightarrow> c)"

definition lower :: "string \<Rightarrow> string" where
  "lower s = map lower_char s"

text \<open>
  \<^verbatim>\<open>os.path.join(a, b)\<close> for two components: an absolute \<open>b\<close> replaces \<open>a\<close>, otherwise
  the two are put together with one separator unless \<open>a\<close> is empty or already ends
  with one.
\<close>

definition path_join :: "string \<Rightarrow> string \<Rightarrow> string" where
  "path_join a b =
     (if take 1 b = ''/'' then b
      else if a = [] \<or> last a = CHR ''/'' then a @ b
      else a @ ''/'' @ b)"

section \<open>Jobs, the store and the environment\<close>

text \<open>
  A job object is its attribute dictionary. An attribute that was never assigned is a
  column of the row that is still NULL, which Python reads as \<^verbatim>\<open>None\<close>.
  \<^verbatim>\<open>setattr\<close> accepts any name and any value.
\<close>

type_synonym job = "string \<rightharpoonup> pyval"

definition getattr :: "job \<Rightarrow> string \<Rightarrow> pyval" where
  "getattr j k = (case j k of Some v \<Rightarrow> v | None \<Rightarrow> PNone)"

definition setattr :: "job \<Rightarrow> string \<Rightarrow> pyval \<Rightarrow> job" where
  "setattr j k v = j(k \<mapsto> v)"

text \<open>The exceptions that leave the functions modelled here.\<close>

datatype exn =
    RuntimeError string
  | SystemExit pyval
  | CommitError string
  | KeyError string
  | TypeError
  | OSError string
  | InvalidRequestError

text \<open>
  The status with which the process ends on \<^verbatim>\<open>sys.exit(code)\<close>: 0 for
  \<^verbatim>\<open>None\<close>, the number for an integer, 1 for anything else (which is printed).
\<close>

fun exit_status :: "pyval \<Rightarrow> int" where
  "exit_status PNone = 0"
| "exit_status (PInt n) = n"
| "exit_status (PBool b) = (if b then 1 else 0)"
| "exit_status v = 1"

text \<open>
  What \<^verbatim>\<open>db.session.commit()\<close> does: it returns, or it raises an exception, of
  which the code reads only \<^verbatim>\<open>str(error)\<close>.
\<close>

datatype outcome = Committed | Failed string

text \<open>What a shell command run through \<^verbatim>\<open>subprocess.check_output\<close> does:
  it exits with status 0, or \<^verbatim>\<open>CalledProcessError\<close> is raised with the return code
  and the captured output (as an f-string prints it).\<close>

datatype proc_result = Exited0 | CalledProcessError int string

text \<open>The values of \<^verbatim>\<open>arm.config.config.cfg\<close> that the functions read.\<close>

record config =
  RAW_PATH :: string
  COMPLETED_PATH :: string
  DATA_RIP_PARAMETERS :: string
  MANUAL_WAIT :: bool
  MANUAL_WAIT_TIME :: int

text \<open>
  Everything outside the process, as the functions meet it:
  \<^item> \<open>commit_outcome e k\<close>: what the \<open>k\<close>-th call of \<^verbatim>\<open>db.session.commit()\<close> does;
  \<^item> \<open>external_writes e s\<close>: what other processes (the web UI) write to the job table
    during a sleep that begins when \<open>s\<close> seconds have been slept;
  \<^item> \<open>proc_table e pid\<close>: the hash of the live process with this PID, if there is one;
  \<^item> \<open>clock e k\<close>: the \<open>k\<close>-th reading of \<^verbatim>\<open>datetime.datetime.now()\<close>;
  \<^item> \<open>get_d e j\<close>: the dictionary \<^verbatim>\<open>j.get_d()\<close> of a job of the table (the method
    is defined with the Job model, outside this file);
  \<^item> \<open>time_centis e\<close>: \<^verbatim>\<open>round(time.time() * 100)\<close>;
  \<^item> \<open>makedirs_fails e p\<close>: \<^verbatim>\<open>os.makedirs(p)\<close> raises OSError;
  \<^item> \<open>run_cmd e cmd fs\<close>: the result of the shell command and the files it leaves;
  \<^item> \<open>rmtree_fails e p\<close>: \<^verbatim>\<open>shutil.rmtree(p)\<close> raises OSError on an existing tree.
\<close>

record env =
  cfg :: config
  commit_outcome :: "nat \<Rightarrow> outcome"
  external_writes :: "nat \<Rightarrow> job list \<Rightarrow> job list"
  proc_table :: "int \<rightharpoonup> int"
  clock :: "nat \<Rightarrow> int"
  get_d :: "job \<Rightarrow> string \<rightharpoonup> pyval"
  time_centis :: int
  makedirs_fails :: "string \<Rightarrow> bool"
  run_cmd :: "string \<Rightarrow> string list \<Rightarrow> proc_result \<times> string list"
  rmtree_fails :: "string \<Rightarrow> bool"

text \<open>
  The state the functions change: the rows of the job table as they are durable in the
  store (in the store's default order), the paths that exist in the file system, and
  counters of the calls made so far: commits, seconds slept, queries of the job table,
  readings of the clock.
\<close>

record world =
  table :: "job list"
  files :: "string list"
  commits :: nat
  slept :: nat
  queries :: nat
  clock_reads :: nat

text \<open>
  A successful commit makes the session's job durable: its row, found by the primary
  key \<^verbatim>\<open>job_id\<close>, is replaced, and a job that has no row yet gets one.
\<close>

definition same_row :: "job \<Rightarrow> job \<Rightarrow> bool" where
  "same_row j r = (getattr r ''job_id'' = getattr j ''job_id'')"

definition persist :: "job \<Rightarrow> job list \<Rightarrow> job list" where
  "persist j rows =
     (if \<exists>r \<in> set rows. same_row j r
      then map (\<lambda>r. if same_row j r then j else r) rows
      else rows @ [j])"

definition commit :: "env \<Rightarrow> job \<Rightarrow> world \<Rightarrow> outcome \<times> world" where
  "commit e j w =
     (case commit_outcome e (commits w) of
        Committed \<Rightarrow> (Committed, w\<lparr>commits := Suc (commits w), table := persist j (table w)\<rparr>)
      | Failed msg \<Rightarrow> (Failed msg, w\<lparr>commits := Suc (commits w)\<rparr>))"

text \<open>\<^verbatim>\<open>time.sleep(n)\<close>: time passes, and the other processes write meanwhile.\<close>

definition sleep :: "env \<Rightarrow> nat \<Rightarrow> world \<Rightarrow> world" where
  "sleep e n w = w\<lparr>slept := slept w + n, table := external_writes e (slept w) (table w)\<rparr>"

text \<open>
  \<^verbatim>\<open>db.session.refresh(job)\<close> reads the attributes again from the job's row;
  it raises when the row is gone. \<^verbatim>\<open>db.session.rollback()\<close> drops what was
  assigned and not committed, so that the job reads as its row again.
\<close>

definition refresh :: "job \<Rightarrow> world \<Rightarrow> job option" where
  "refresh j w = find (same_row j) (table w)"

definition rollback :: "job \<Rightarrow> world \<Rightarrow> job" where
  "rollback j w = (case refresh j w of Some r \<Rightarrow> r | None \<Rightarrow> j)"

section \<open>database_updater\<close>

text \<open>
  \<^verbatim>\<open>
  for i in range(wait_time):
      try:
          db.session.commit()
      except Exception as error:
          if "locked" in str(error):
              time.sleep(1)
          else:
              raise RuntimeError(str(error)) from error
  \<close>
  The loop has no \<^verbatim>\<open>break\<close>: after a commit that returns, the next iteration
  commits again. \<open>retry_commit e j n w\<close> runs the \<open>n\<close> iterations that are left.
\<close>

fun retry_commit :: "env \<Rightarrow> job \<Rightarrow> nat \<Rightarrow> world \<Rightarrow> (exn + unit) \<times> world" where
  "retry_commit e j 0 w = (Inr (), w)"
| "retry_commit e j (Suc n) w =
     (case commit e j w of
        (Committed, w') \<Rightarrow> retry_commit e j n w'
      | (Failed msg, w') \<Rightarrow>
          if contains ''locked'' msg then retry_commit e j n (sleep e 1 w')
          else (Inl (RuntimeError msg), w'))"

text \<open>The first argument of \<^verbatim>\<open>database_updater\<close>: a dictionary (its items in
  order), or anything else.\<close>

datatype py_args = Dict "(string \<times> pyval) list" | NotDict

definition set_all :: "(string \<times> pyval) list \<Rightarrow> job \<Rightarrow> job" where
  "set_all kvs j = foldl (\<lambda>j' (k, v). setattr j' k v) j kvs"

definition database_updater ::
  "env \<Rightarrow> py_args \<Rightarrow> job \<Rightarrow> int \<Rightarrow> world \<Rightarrow> (exn + bool) \<times> job \<times> world" where
  "database_updater e args j wait_time w =
     (case args of
        NotDict \<Rightarrow> (Inr False, rollback j w, w)
      | Dict kvs \<Rightarrow>
          (let j' = set_all kvs j in
           case retry_commit e j' (nat wait_time) w of
             (Inl x, w') \<Rightarrow> (Inl x, j', w')
           | (Inr u, w') \<Rightarrow> (Inr True, j', w')))"

section \<open>clean_old_jobs\<close>

text \<open>
  SQL comparisons: a NULL column satisfies neither \<^verbatim>\<open>NOT IN (...)\<close> nor
  \<^verbatim>\<open>= value\<close>.
\<close>

definition sql_notin :: "pyval \<Rightarrow> pyval list \<Rightarrow> bool" where
  "sql_notin v vs = (v \<noteq> PNone \<and> v \<notin> set vs)"

definition sql_eq :: "pyval \<Rightarrow> pyval \<Rightarrow> bool" where
  "sql_eq a b = (a \<noteq> PNone \<and> b \<noteq> PNone \<and> a = b)"

definition non_terminal :: "job \<Rightarrow> bool" where
  "non_terminal j = sql_notin (getattr j ''status'') [PStr ''fail'', PStr ''success'']"

text \<open>A Python value used as an integer: a number, or a boolean (which is 1 or 0).\<close>

fun as_int :: "pyval \<Rightarrow> int option" where
  "as_int (PInt n) = Some n"
| "as_int (PBool b) = Some (if b then 1 else 0)"
| "as_int v = None"

text \<open>
  The loop over the active jobs. \<^verbatim>\<open>psutil.pid_exists\<close> compares the PID with 0 and
  so raises TypeError for one that is not a number. When the process exists, the two
  outcomes of the comparison of the hashes differ only in a line of the log: the
  \<^verbatim>\<open>else\<close> that marks the job failed belongs to the outer \<^verbatim>\<open>if\<close>. An exception
  of the commit is not caught. The process table is read as it is when the sweep starts.
\<close>

fun sweep :: "env \<Rightarrow> job list \<Rightarrow> world \<Rightarrow> (exn + unit) \<times> world" where
  "sweep e [] w = (Inr (), w)"
| "sweep e (j # js) w =
     (case as_int (getattr j ''pid'') of
        None \<Rightarrow> (Inl TypeError, w)
      | Some pid \<Rightarrow>
          (case proc_table e pid of
             Some h \<Rightarrow>
               (if getattr j ''pid_hash'' = PInt h then sweep e js w
                else sweep e js w)
           | None \<Rightarrow>
               (case commit e (setattr j ''status'' (PStr ''fail'')) w of
                  (Committed, w') \<Rightarrow> sweep e js w'
                | (Failed msg, w') \<Rightarrow> (Inl (CommitError msg), w'))))"

text \<open>The function has no \<^verbatim>\<open>return\<close>: its value is \<^verbatim>\<open>None\<close>.\<close>

definition clean_old_jobs :: "env \<Rightarrow> world \<Rightarrow> (exn + pyval) \<times> world" where
  "clean_old_jobs e w =
     (let active_jobs = filter non_terminal (table w) in
      case sweep e active_jobs (w\<lparr>queries := Suc (queries w)\<rparr>) of
        (Inl x, w') \<Rightarrow> (Inl x, w')
      | (Inr u, w') \<Rightarrow> (Inr PNone, w'))"

section \<open>job_dupe_check\<close>

text \<open>
  \<^verbatim>\<open>results[i][str(key)] = str(value)\<close>: the record of a previous rip is the
  dictionary of \<^verbatim>\<open>get_d\<close> with every value turned into a string.
\<close>

definition stringify :: "(string \<rightharpoonup> pyval) \<Rightarrow> (string \<rightharpoonup> string)" where
  "stringify d = (\<lambda>k. map_option py_str (d k))"

definition lookup :: "(string \<rightharpoonup> string) \<Rightarrow> string \<Rightarrow> exn + string" where
  "lookup d k = (case d k of None \<Rightarrow> Inl (KeyError k) | Some v \<Rightarrow> Inr v)"

text \<open>
  The dictionary \<^verbatim>\<open>active_rip\<close> built from the first record \<open>r0\<close>, its keys
  looked up in the order of the source:
  \<^verbatim>\<open>
  title = results[0]['title'] if results[0]['title'] else job.label
  year = results[0]['year'] if results[0]['year'] != "" else ""
  poster_url = results[0]['poster_url'] if results[0]['poster_url'] != "" else None
  hasnicetitle = (str(results[0]['hasnicetitle']).lower() == 'true')
  video_type = results[0]['video_type'] if results[0]['hasnicetitle'] != "" else "unknown"
  \<close>
\<close>

definition active_rip :: "(string \<rightharpoonup> string) \<Rightarrow> job \<Rightarrow> exn + (string \<times> pyval) list" where
  "active_rip r0 j =
     (case lookup r0 ''title'' of
        Inl x \<Rightarrow> Inl x
      | Inr t \<Rightarrow>
     (case lookup r0 ''year'' of
        Inl x \<Rightarrow> Inl x
      | Inr y \<Rightarrow>
     (case lookup r0 ''poster_url'' of
        Inl x \<Rightarrow> Inl x
      | Inr p \<Rightarrow>
     (case lookup r0 ''hasnicetitle'' of
        Inl x \<Rightarrow> Inl x
      | Inr h \<Rightarrow>
     (case (if h \<noteq> [] then lookup r0 ''video_type'' else Inr ''unknown'') of
        Inl x \<Rightarrow> Inl x
      | Inr vt \<Rightarrow>
          Inr [(''title'', if t \<noteq> [] then PStr t else getattr j ''label''),
               (''year'', if y \<noteq> [] then PStr y else PStr []),
               (''poster_url'', if p \<noteq> [] then PStr p else PNone),
               (''hasnicetitle'', PBool (lower h = ''true'')),
               (''video_type'', PStr vt)])))))"

definition previous_rip :: "job \<Rightarrow> job \<Rightarrow> bool" where
  "previous_rip j r =
     (sql_eq (getattr r ''crc_id'') (getattr j ''crc_id'')
      \<and> sql_eq (getattr r ''status'') (PStr ''success'')
      \<and> sql_eq (getattr r ''hasnicetitle'') (PBool True))"

text \<open>
  The value is the pair \<^verbatim>\<open>(False, None)\<close> or \<^verbatim>\<open>(True, results)\<close>;
  \<^verbatim>\<open>results\<close>, a dictionary with the keys 0, 1, 2, ..., is the list of its values.
\<close>

definition job_dupe_check ::
  "env \<Rightarrow> job \<Rightarrow> world \<Rightarrow> (exn + bool \<times> (string \<rightharpoonup> string) list option) \<times> job \<times> world" where
  "job_dupe_check e j w =
     (if getattr j ''crc_id'' = PNone then (Inr (False, None), j, w)
      else
        (let previous_rips = filter (previous_rip j) (table w);
             w1 = w\<lparr>queries := Suc (queries w)\<rparr>;
             results = map (\<lambda>r. stringify (get_d e r)) previous_rips
         in case results of
              [] \<Rightarrow> (Inr (False, None), j, w1)
            | r0 # rs \<Rightarrow>
                (case active_rip r0 j of
                   Inl x \<Rightarrow> (Inl x, j, w1)
                 | Inr args \<Rightarrow>
                     (case database_updater e (Dict args) j 90 w1 of
                        (Inl x, j', w') \<Rightarrow> (Inl x, j', w')
                      | (Inr b, j', w') \<Rightarrow> (Inr (True, Some results), j', w')))))"

section \<open>duplicate_run_check\<close>

text \<open>
  \<^verbatim>\<open>round(td.total_seconds())\<close> for a duration of \<open>us \<ge> 0\<close> microseconds: the nearest
  whole number of seconds, the even one of the two when it lies half-way.
\<close>

definition round_seconds :: "int \<Rightarrow> int" where
  "round_seconds us =
     (let q = us div 1000000; r = us mod 1000000
      in if r < 500000 then q
         else if 500000 < r then q + 1
         else if even q then q else q + 1)"

text \<open>
  \<^verbatim>\<open>
  for j in running_jobs:
      print(j.start_time - datetime.datetime.now())
      mins_last_run = int(round(abs(j.start_time - datetime.datetime.now()).total_seconds()) / 60)
      if mins_last_run <= 1:
          sys.exit(1)
  \<close>
  The clock is read twice for each job. A start time that is not a timestamp cannot be
  subtracted from one.
\<close>

fun recent_run :: "env \<Rightarrow> job list \<Rightarrow> world \<Rightarrow> (exn + unit) \<times> world" where
  "recent_run e [] w = (Inr (), w)"
| "recent_run e (j # js) w =
     (case getattr j ''start_time'' of
        PDateTime t \<Rightarrow>
          (let now = clock e (Suc (clock_reads w));
               w' = w\<lparr>clock_reads := clock_reads w + 2\<rparr>;
               mins_last_run = round_seconds \<bar>t - now\<bar> div 60
           in if mins_last_run \<le> 1 then (Inl (SystemExit (PInt 1)), w')
              else recent_run e js w')
      | _ \<Rightarrow> (Inl TypeError, w))"

definition running_on :: "string \<Rightarrow> job \<Rightarrow> bool" where
  "running_on dev_path j = (non_terminal j \<and> sql_eq (getattr j ''devpath'') (PStr dev_path))"

definition duplicate_run_check :: "env \<Rightarrow> string \<Rightarrow> world \<Rightarrow> (exn + pyval) \<times> world" where
  "duplicate_run_check e dev_path w =
     (let running_jobs = filter (running_on dev_path) (table w) in
      case recent_run e running_jobs (w\<lparr>queries := Suc (queries w)\<rparr>) of
        (Inl x, w') \<Rightarrow> (Inl x, w')
      | (Inr u, w') \<Rightarrow> (Inr PNone, w'))"

section \<open>rip_data\<close>

definition convert_job_type :: "pyval \<Rightarrow> string" where
  "convert_job_type video_type =
     (if video_type = PStr ''movie'' then ''movies''
      else if video_type = PStr ''series'' then ''tv''
      else ''unidentified'')"

text \<open>
  \<^verbatim>\<open>make_dir\<close>: True when the directory was made, False when the path exists
  already; when \<^verbatim>\<open>os.makedirs\<close> fails the process exits with the error message.
\<close>

definition make_dir :: "env \<Rightarrow> string \<Rightarrow> world \<Rightarrow> (exn + bool) \<times> world" where
  "make_dir e path w =
     (if path \<notin> set (files w) then
        (if makedirs_fails e path then
           (Inl (SystemExit (PStr (''Couldn't create a directory at path: '' @ path
                  @ '' Probably a permissions error.  Exiting''))), w)
         else (Inr True, w\<lparr>files := files w @ [path]\<rparr>))
      else (Inr False, w))"

text \<open>The paths of \<^verbatim>\<open>rip_data\<close>, once the directories are in order.\<close>

record rip_paths =
  raw_path :: string
  final_path :: string
  incomplete_filename :: string

text \<open>
  The first half of \<^verbatim>\<open>rip_data\<close>, up to \<^verbatim>\<open>make_dir(final_path)\<close>,
  for a job whose label has already been given its default. When the staging directory
  exists, one with the time as a suffix is made; when this one exists too the process
  exits (with \<^verbatim>\<open>sys.exit()\<close>, that is with no code).
\<close>

definition get_filesystem_in_order :: "env \<Rightarrow> job \<Rightarrow> world \<Rightarrow> (exn + rip_paths) \<times> world" where
  "get_filesystem_in_order e j w =
     (let label = py_str (getattr j ''label'');
          raw = path_join (RAW_PATH (cfg e)) label;
          final = path_join (COMPLETED_PATH (cfg e)) (convert_job_type (getattr j ''video_type''))
      in case make_dir e raw w of
           (Inl x, w1) \<Rightarrow> (Inl x, w1)
         | (Inr made, w1) \<Rightarrow>
             (case (if made then (Inr (raw, label), w1)
                    else
                      (let random_time = py_str (PInt (time_centis e));
                           raw2 = path_join (RAW_PATH (cfg e)) (label @ ''_'' @ random_time)
                       in case make_dir e raw2 w1 of
                            (Inl x, w2) \<Rightarrow> (Inl x, w2)
                          | (Inr made2, w2) \<Rightarrow>
                              (if made2 then (Inr (raw2, label @ ''_'' @ random_time), w2)
                               else (Inl (SystemExit PNone), w2)))) of
                (Inl x, w2) \<Rightarrow> (Inl x, w2)
              | (Inr (raw', final_file_name), w2) \<Rightarrow>
                  (let final' = path_join final final_file_name;
                       paths = \<lparr>raw_path = raw', final_path = final',
                                incomplete_filename = path_join raw' (label @ ''.part'')\<rparr>
                   in case make_dir e final' w2 of
                        (Inl x, w3) \<Rightarrow> (Inl x, w3)
                      | (Inr made3, w3) \<Rightarrow> (Inr paths, w3))))"

text \<open>\<^verbatim>\<open>os.unlink\<close> and \<^verbatim>\<open>os.rename\<close> raise when the file is not there.\<close>

definition unlink :: "string \<Rightarrow> world \<Rightarrow> (exn + unit) \<times> world" where
  "unlink p w =
     (if p \<in> set (files w) then (Inr (), w\<lparr>files := removeAll p (files w)\<rparr>)
      else (Inl (OSError p), w))"

definition rename :: "string \<Rightarrow> string \<Rightarrow> world \<Rightarrow> (exn + unit) \<times> world" where
  "rename src dst w =
     (if src \<in> set (files w) then (Inr (), w\<lparr>files := removeAll src (files w) @ [dst]\<rparr>)
      else (Inl (OSError src), w))"

text \<open>
  \<^verbatim>\<open>shutil.rmtree(p)\<close> inside \<^verbatim>\<open>try ... except OSError\<close>: the tree and all that
  is below it go, or the error is logged and nothing changes.
\<close>

definition below :: "string \<Rightarrow> string \<Rightarrow> bool" where
  "below p q = (q = p \<or> take (length p + 1) q = p @ ''/'')"

definition rmtree :: "env \<Rightarrow> string \<Rightarrow> world \<Rightarrow> world" where
  "rmtree e p w =
     (if p \<notin> set (files w) \<or> rmtree_fails e p then w
      else w\<lparr>files := filter (\<lambda>q. \<not> below p q) (files w)\<rparr>)"

definition dd_cmd :: "env \<Rightarrow> job \<Rightarrow> string \<Rightarrow> string" where
  "dd_cmd e j incomplete =
     ''dd if=\"'' @ py_str (getattr j ''devpath'') @ ''\" of=\"'' @ incomplete @ ''\" ''
     @ DATA_RIP_PARAMETERS (cfg e) @ '' 2>> '' @ py_str (getattr j ''logfile'')"

definition dd_error_message :: "int \<Rightarrow> string \<Rightarrow> string" where
  "dd_error_message returncode output =
     ''Data rip failed with code: '' @ str_int returncode @ ''('' @ output @ '')''"

text \<open>The image file that the partial file becomes when the copy succeeds.\<close>

definition full_final_file :: "job \<Rightarrow> rip_paths \<Rightarrow> string" where
  "full_final_file j paths = path_join (final_path paths) (py_str (getattr j ''label'') @ ''.iso'')"

text \<open>
  The second half: the copy, then the rename or the record of the failure, then the
  removal of the staging directory. Only \<^verbatim>\<open>CalledProcessError\<close> is caught around
  the copy; what \<^verbatim>\<open>os.rename\<close>, \<^verbatim>\<open>os.unlink\<close> or \<^verbatim>\<open>database_updater\<close> raise
  leaves the function before the removal.
\<close>

definition rip_to :: "env \<Rightarrow> job \<Rightarrow> rip_paths \<Rightarrow> world \<Rightarrow> (exn + bool) \<times> job \<times> world" where
  "rip_to e j paths w =
     (let incomplete = incomplete_filename paths;
          (res, fs) = run_cmd e (dd_cmd e j incomplete) (files w);
          w1 = w\<lparr>files := fs\<rparr>
      in case res of
           Exited0 \<Rightarrow>
             (case rename incomplete (full_final_file j paths) w1 of
                (Inl x, w2) \<Rightarrow> (Inl x, j, w2)
              | (Inr u, w2) \<Rightarrow> (Inr True, j, rmtree e (raw_path paths) w2))
         | CalledProcessError returncode output \<Rightarrow>
             (let err = dd_error_message returncode output
              in case unlink incomplete w1 of
                   (Inl x, w2) \<Rightarrow> (Inl x, j, w2)
                 | (Inr u, w2) \<Rightarrow>
                     (case database_updater e
                             (Dict [(''status'', PStr ''fail''), (''errors'', PStr err)]) j 90 w2 of
                        (Inl x, j', w3) \<Rightarrow> (Inl x, j', w3)
                      | (Inr b, j', w3) \<Rightarrow> (Inr False, j', rmtree e (raw_path paths) w3))))"

definition default_label :: "job \<Rightarrow> job" where
  "default_label j =
     (if getattr j ''label'' = PStr [] \<or> getattr j ''label'' = PNone
      then setattr j ''label'' (PStr ''data-disc'') else j)"

definition rip_data :: "env \<Rightarrow> job \<Rightarrow> world \<Rightarrow> (exn + bool) \<times> job \<times> world" where
  "rip_data e j w =
     (let j1 = default_label j
      in case get_filesystem_in_order e j1 w of
           (Inl x, w1) \<Rightarrow> (Inl x, j1, w1)
         | (Inr paths, w1) \<Rightarrow> rip_to e j1 paths w1)"

section \<open>check_for_wait\<close>




section \<open>Notions used to state the properties\<close>

text \<open>The owning process of a job is gone: its PID is a number that the process table
  does not have. A job marked failed.\<close>

definition gone :: "env \<Rightarrow> job \<Rightarrow> bool" where
  "gone e j = (\<exists>pid. as_int (getattr j ''pid'') = Some pid \<and> proc_table e pid = None)"

definition mark_failed :: "job \<Rightarrow> job" where
  "mark_failed j = setattr j ''status'' (PStr ''fail'')"

text \<open>An outcome of a commit after which the retry loop goes on.\<close>

definition nonfatal :: "outcome \<Rightarrow> bool" where
  "nonfatal out = (case out of Committed \<Rightarrow> True | Failed msg \<Rightarrow> contains ''locked'' msg)"

section \<open>An environment and a world to run the functions in\<close>

text \<open>
  A quiet environment: every commit returns, nobody else writes, no process is alive,
  the clock stands at the epoch, \<^verbatim>\<open>get_d\<close> gives the attributes, every command
  succeeds; and an empty world.
\<close>

definition env0 :: env where
  "env0 = \<lparr>cfg = \<lparr>RAW_PATH = ''/raw'', COMPLETED_PATH = ''/done'',
                   DATA_RIP_PARAMETERS = ''bs=2048'', MANUAL_WAIT = True,
                   MANUAL_WAIT_TIME = 60\<rparr>,
            commit_outcome = (\<lambda>k. Committed),
            external_writes = (\<lambda>s rows. rows),
            proc_table = Map.empty,
            clock = (\<lambda>k. 0),
            get_d = (\<lambda>j. j),
            time_centis = 173072369612,
            makedirs_fails = (\<lambda>p. False),
            run_cmd = (\<lambda>c fs. (Exited0, fs)),
            rmtree_fails = (\<lambda>p. False)\<rparr>"

definition world0 :: world where
  "world0 = \<lparr>table = [], files = [], commits = 0, slept = 0, queries = 0, clock_reads = 0\<rparr>"

text \<open>A store that is locked for the first two commits, takes the third, and is
  broken from then on.\<close>

definition locked_twice_then_broken :: "nat \<Rightarrow> outcome" where
  "locked_twice_then_broken k =
     (if k < 2 then Failed ''database is locked''
      else if k = 2 then Committed
      else Failed ''disk I/O error'')"

text \<open>A job that runs on the drive \<^verbatim>\<open>/dev/sr0\<close> as process 4242, started at the
  given time, and an environment whose clock stands at a given time.\<close>

definition job_sr0 :: "int \<Rightarrow> job" where
  "job_sr0 started =
     [''job_id'' \<mapsto> PInt 1, ''devpath'' \<mapsto> PStr ''/dev/sr0'', ''status'' \<mapsto> PStr ''active'',
      ''pid'' \<mapsto> PInt 4242, ''pid_hash'' \<mapsto> PInt 1111, ''start_time'' \<mapsto> PDateTime started]"

definition env_at :: "int \<Rightarrow> env" where
  "env_at now = env0\<lparr>clock := (\<lambda>k. now)\<rparr>"

text \<open>A finished rip of the disc with fingerprint \<^verbatim>\<open>F\<close>, identified as
  \<^verbatim>\<open>Alpha (2001)\<close>; the same rip with no poster; and a new job for the same disc.\<close>

definition prior_alpha :: job where
  "prior_alpha =
     [''job_id'' \<mapsto> PInt 1, ''crc_id'' \<mapsto> PStr ''F'', ''status'' \<mapsto> PStr ''success'',
      ''hasnicetitle'' \<mapsto> PBool True, ''title'' \<mapsto> PStr ''Alpha (2001)'',
      ''year'' \<mapsto> PStr ''2001'', ''poster_url'' \<mapsto> PStr ''http://img/alpha.jpg'',
      ''video_type'' \<mapsto> PStr ''movie'']"

definition job_alpha :: job where
  "job_alpha =
     [''job_id'' \<mapsto> PInt 2, ''crc_id'' \<mapsto> PStr ''F'', ''status'' \<mapsto> PStr ''active'',
      ''label'' \<mapsto> PStr ''ALPHA_DISC'']"

definition prior_no_poster :: job where
  "prior_no_poster = prior_alpha(''poster_url'' \<mapsto> PNone)"




text \<open>
  Three runs of the copy: \<^verbatim>\<open>dd\<close> breaks off with status 1 and leaves the partial
  file; it gives up before it has made one (no disc in the drive); it copies the disc.
  The captured output is empty (\<^verbatim>\<open>b''\<close>). A data disc with an empty label, and
  the paths of its rip in the quiet environment.
\<close>

definition no_output :: string where
  "no_output = [CHR ''b'', CHR 0x27, CHR 0x27]"

definition dd_breaks_off :: "string \<Rightarrow> string list \<Rightarrow> proc_result \<times> string list" where
  "dd_breaks_off cmd fs = (CalledProcessError 1 no_output, fs @ [''/raw/data-disc/data-disc.part''])"

definition dd_no_medium :: "string \<Rightarrow> string list \<Rightarrow> proc_result \<times> string list" where
  "dd_no_medium cmd fs = (CalledProcessError 1 no_output, fs)"

definition job_data :: job where
  "job_data = [''job_id'' \<mapsto> PInt 4, ''status'' \<mapsto> PStr ''active'',
               ''devpath'' \<mapsto> PStr ''/dev/sr0'', ''logfile'' \<mapsto> PStr ''/log/data.log'',
               ''label'' \<mapsto> PStr []]"

definition data_disc_paths :: rip_paths where
  "data_disc_paths = \<lparr>raw_path = ''/raw/data-disc'',
                       final_path = ''/done/unidentified/data-disc'',
                       incomplete_filename = ''/raw/data-disc/data-disc.part''\<rparr>"

definition dd_copies :: "string \<Rightarrow> string list \<Rightarrow> proc_result \<times> string list" where
  "dd_copies cmd fs = (Exited0, fs @ [''/raw/data-disc/data-disc.part''])"

section \<open>Properties of database_updater\<close>

lemma getattr_setattr: "getattr (setattr j k v) k' = (if k' = k then v else getattr j k')"
  by (simp add: getattr_def setattr_def)

text \<open>Assigning the items of a dictionary in order leaves, for each key, its last value.\<close>

lemma set_all_map_of: "set_all kvs j = j ++ map_of (rev kvs)"
proof (induction kvs arbitrary: j)
  case Nil
  then show ?case by (simp add: set_all_def)
next
  case (Cons kv kvs)
  obtain k v where kv: "kv = (k, v)" by (cases kv)
  have "set_all (kv # kvs) j = set_all kvs (setattr j k v)"
    by (simp add: set_all_def kv)
  also have "\<dots> = setattr j k v ++ map_of (rev kvs)"
    by (rule Cons.IH)
  also have "\<dots> = j ++ map_of (rev (kv # kvs))"
    by (auto simp: kv setattr_def fun_eq_iff map_add_def split: option.splits)
  finally show ?case .
qed

lemma retry_commit_fatal_first:
  assumes "commit_outcome e (commits w) = Failed msg" "\<not> contains ''locked'' msg"
  shows "retry_commit e j (Suc n) w = (Inl (RuntimeError msg), w\<lparr>commits := Suc (commits w)\<rparr>)"
  using assms by (simp add: commit_def)

text \<open>
  C4. When the first commit of \<^verbatim>\<open>database_updater\<close> fails with an error whose text
  does not contain \<^verbatim>\<open>locked\<close>, the function raises RuntimeError with that text.
  The world it leaves differs from the one it found in the count of commits only, which
  has grown by one: there was no second attempt and no sleep. The fields were assigned
  to the job before.
\<close>

theorem database_updater_fatal_first_attempt:
  assumes "0 < wait_time"
    and "commit_outcome e (commits w) = Failed msg"
    and "\<not> contains ''locked'' msg"
  shows "database_updater e (Dict kvs) j wait_time w =
           (Inl (RuntimeError msg), j ++ map_of (rev kvs), w\<lparr>commits := Suc (commits w)\<rparr>)"
proof -
  from assms(1) obtain n where n: "nat wait_time = Suc n"
    by (cases "nat wait_time") auto
  show ?thesis
    unfolding database_updater_def
    by (simp add: n retry_commit_fatal_first[OF assms(2,3)] set_all_map_of
             del: retry_commit.simps)
qed

theorem database_updater_fatal_first_attempt_witness:
  "(0::int) < 90
   \<and> commit_outcome (env0\<lparr>commit_outcome := (\<lambda>k. Failed ''disk I/O error'')\<rparr>) (commits world0)
       = Failed ''disk I/O error''
   \<and> \<not> contains ''locked'' ''disk I/O error''
   \<and> database_updater (env0\<lparr>commit_outcome := (\<lambda>k. Failed ''disk I/O error'')\<rparr>)
        (Dict [(''status'', PStr ''active'')]) [''job_id'' \<mapsto> PInt 1] 90 world0
       = (Inl (RuntimeError ''disk I/O error''),
          [''job_id'' \<mapsto> PInt 1, ''status'' \<mapsto> PStr ''active''],
          world0\<lparr>commits := 1\<rparr>)"
  using database_updater_fatal_first_attempt
          [of 90 "env0\<lparr>commit_outcome := (\<lambda>k. Failed ''disk I/O error'')\<rparr>" world0
              "''disk I/O error''" "[(''status'', PStr ''active'')]" "[''job_id'' \<mapsto> PInt 1]"]
  by (simp add: env0_def world0_def)

text \<open>
  While the store is locked the loop goes on: \<open>n\<close> locked commits take \<open>n\<close>
  iterations, \<open>n\<close> commits and \<open>n\<close> seconds of sleep.
\<close>

lemma retry_commit_locked_prefix:
  assumes "\<forall>k. commits w \<le> k \<and> k < commits w + n \<longrightarrow>
             (\<exists>msg. commit_outcome e k = Failed msg \<and> contains ''locked'' msg)"
  shows "\<exists>w'. retry_commit e j (n + m) w = retry_commit e j m w'
             \<and> commits w' = commits w + n \<and> slept w' = slept w + n \<and> files w' = files w"
  using assms
proof (induction n arbitrary: w)
  case 0
  show ?case by (rule exI[of _ w]) simp
next
  case (Suc n)
  from Suc.prems obtain msg where
    m: "commit_outcome e (commits w) = Failed msg" "contains ''locked'' msg"
    by (metis le_refl less_add_Suc1 add_Suc_right)
  define w1 where "w1 = sleep e 1 (w\<lparr>commits := Suc (commits w)\<rparr>)"
  have step: "retry_commit e j (Suc n + m) w = retry_commit e j (n + m) w1"
    using m by (simp add: commit_def w1_def)
  have c: "commits w1 = Suc (commits w)" and s: "slept w1 = Suc (slept w)"
    and f: "files w1 = files w"
    by (simp_all add: sleep_def w1_def)
  have "\<forall>k. commits w1 \<le> k \<and> k < commits w1 + n \<longrightarrow>
             (\<exists>msg. commit_outcome e k = Failed msg \<and> contains ''locked'' msg)"
    using Suc.prems c by auto
  from Suc.IH[OF this] obtain w' where
    "retry_commit e j (n + m) w1 = retry_commit e j m w'"
    "commits w' = commits w1 + n" "slept w' = slept w1 + n" "files w' = files w1"
    by blast
  then show ?case
    unfolding step by (auto simp: c s f)
qed

lemma retry_commit_all_free:
  assumes "\<forall>k. commits w \<le> k \<and> k < commits w + n \<longrightarrow> commit_outcome e k = Committed"
  shows "fst (retry_commit e j n w) = Inr ()
       \<and> slept (snd (retry_commit e j n w)) = slept w
       \<and> commits (snd (retry_commit e j n w)) = commits w + n"
  using assms
proof (induction n arbitrary: w)
  case 0
  then show ?case by simp
next
  case (Suc n)
  from Suc.prems have ok: "commit_outcome e (commits w) = Committed"
    by simp
  define w1 where "w1 = w\<lparr>commits := Suc (commits w), table := persist j (table w)\<rparr>"
  have step: "retry_commit e j (Suc n) w = retry_commit e j n w1"
    using ok by (simp add: commit_def w1_def)
  have c: "commits w1 = Suc (commits w)" and s: "slept w1 = slept w"
    by (simp_all add: w1_def)
  have "\<forall>k. commits w1 \<le> k \<and> k < commits w1 + n \<longrightarrow> commit_outcome e k = Committed"
    using Suc.prems c by auto
  from Suc.IH[OF this] show ?case
    unfolding step by (simp add: c s)
qed

text \<open>
  C1. When every commit of the budget fails with a \<^verbatim>\<open>locked\<close> error, the loop runs
  out after \<^verbatim>\<open>wait_time\<close> commits and as many seconds of sleep, and the function
  goes on to its last line: it returns True, as it does after a commit that succeeded.
  The caller is told of a success where nothing was written.
\<close>

theorem database_updater_exhausted_returns_True:
  assumes "\<forall>k. commits w \<le> k \<and> k < commits w + nat wait_time \<longrightarrow>
             (\<exists>msg. commit_outcome e k = Failed msg \<and> contains ''locked'' msg)"
  shows "\<exists>w'. database_updater e (Dict kvs) j wait_time w = (Inr True, j ++ map_of (rev kvs), w')
             \<and> commits w' = commits w + nat wait_time
             \<and> slept w' = slept w + nat wait_time"
proof -
  from retry_commit_locked_prefix[OF assms, of "set_all kvs j" 0] obtain w' where
    "retry_commit e (set_all kvs j) (nat wait_time) w = (Inr (), w')"
    "commits w' = commits w + nat wait_time" "slept w' = slept w + nat wait_time"
    by auto
  then show ?thesis
    unfolding database_updater_def by (simp add: set_all_map_of)
qed

theorem database_updater_exhausted_returns_True_witness:
  "\<exists>w'. database_updater (env0\<lparr>commit_outcome := (\<lambda>k. Failed ''database is locked'')\<rparr>)
              (Dict [(''status'', PStr ''active'')]) [''job_id'' \<mapsto> PInt 1] 90 world0
            = (Inr True, [''job_id'' \<mapsto> PInt 1, ''status'' \<mapsto> PStr ''active''], w')
          \<and> commits w' = 90 \<and> slept w' = 90"
proof -
  have h: "\<forall>k. commits world0 \<le> k \<and> k < commits world0 + nat 90 \<longrightarrow>
         (\<exists>msg. commit_outcome (env0\<lparr>commit_outcome := (\<lambda>k. Failed ''database is locked'')\<rparr>) k
                   = Failed msg \<and> contains ''locked'' msg)"
    by simp
  show ?thesis
    using database_updater_exhausted_returns_True
          [OF h, of "[(''status'', PStr ''active'')]" "[''job_id'' \<mapsto> PInt 1]"]
    by (simp add: world0_def)
qed

text \<open>
  C3. After \<open>n\<close> locked commits and one that succeeds, with budget left, the loop
  commits again. When this next commit fails with an error that is not \<^verbatim>\<open>locked\<close>,
  the function raises RuntimeError although the fields were committed, \<open>n\<close> seconds of
  sleep before: it does not return True.
\<close>

theorem database_updater_commits_again_after_success:
  assumes locked: "\<forall>k. commits w \<le> k \<and> k < commits w + n \<longrightarrow>
             (\<exists>msg. commit_outcome e k = Failed msg \<and> contains ''locked'' msg)"
    and ok: "commit_outcome e (commits w + n) = Committed"
    and again: "commit_outcome e (commits w + n + 1) = Failed msg"
    and fatal: "\<not> contains ''locked'' msg"
    and budget: "int n + 2 \<le> wait_time"
  shows "\<exists>w'. database_updater e (Dict kvs) j wait_time w
               = (Inl (RuntimeError msg), j ++ map_of (rev kvs), w')
             \<and> commits w' = commits w + n + 2 \<and> slept w' = slept w + n"
proof -
  let ?j = "set_all kvs j"
  from budget obtain m where m: "nat wait_time = n + Suc (Suc m)"
    by (metis add_2_eq_Suc' le_add_diff_inverse nat_int nat_mono of_nat_add of_nat_numeral
          add.commute add_Suc_right)
  from retry_commit_locked_prefix[OF locked, of ?j "Suc (Suc m)"] obtain w1 where
    w1: "retry_commit e ?j (n + Suc (Suc m)) w = retry_commit e ?j (Suc (Suc m)) w1"
      "commits w1 = commits w + n" "slept w1 = slept w + n"
    by blast
  define w2 where "w2 = w1\<lparr>commits := Suc (commits w1), table := persist ?j (table w1)\<rparr>"
  have s1: "retry_commit e ?j (Suc (Suc m)) w1 = retry_commit e ?j (Suc m) w2"
    using ok w1(2) by (simp add: commit_def w2_def)
  have c2: "commits w2 = commits w + n + 1" "slept w2 = slept w + n"
    using w1 by (simp_all add: w2_def)
  have s2: "retry_commit e ?j (Suc m) w2 = (Inl (RuntimeError msg), w2\<lparr>commits := Suc (commits w2)\<rparr>)"
    using again fatal c2 by (intro retry_commit_fatal_first) simp_all
  have "retry_commit e ?j (nat wait_time) w = (Inl (RuntimeError msg), w2\<lparr>commits := Suc (commits w2)\<rparr>)"
    unfolding m w1(1) s1 s2 ..
  then show ?thesis
    unfolding database_updater_def
    by (simp add: c2 set_all_map_of del: retry_commit.simps)
qed

theorem database_updater_commits_again_after_success_witness:
  "\<exists>w'. database_updater (env0\<lparr>commit_outcome := locked_twice_then_broken\<rparr>)
              (Dict [(''status'', PStr ''active'')]) [''job_id'' \<mapsto> PInt 1] 90 world0
            = (Inl (RuntimeError ''disk I/O error''),
               [''job_id'' \<mapsto> PInt 1, ''status'' \<mapsto> PStr ''active''], w')
          \<and> commits w' = 4 \<and> slept w' = 2"
proof -
  let ?e = "env0\<lparr>commit_outcome := locked_twice_then_broken\<rparr>"
  have locked: "\<forall>k. commits world0 \<le> k \<and> k < commits world0 + 2 \<longrightarrow>
         (\<exists>msg. commit_outcome ?e k = Failed msg \<and> contains ''locked'' msg)"
    by (simp add: locked_twice_then_broken_def world0_def)
  have ok: "commit_outcome ?e (commits world0 + 2) = Committed"
    by (simp add: locked_twice_then_broken_def world0_def)
  have again: "commit_outcome ?e (commits world0 + 2 + 1) = Failed ''disk I/O error''"
    by (simp add: locked_twice_then_broken_def world0_def)
  have fatal: "\<not> contains ''locked'' ''disk I/O error''"
    by simp
  have budget: "int 2 + 2 \<le> 90"
    by simp
  show ?thesis
    using database_updater_commits_again_after_success
          [OF locked ok again fatal budget, of "[(''status'', PStr ''active'')]" "[''job_id'' \<mapsto> PInt 1]"]
    by (simp add: world0_def numeral_eq_Suc)
qed

text \<open>
  What does hold of the retries: when the commits that follow the \<open>n\<close> locked ones
  succeed up to the end of the budget, the function returns True after exactly \<open>n\<close>
  seconds of sleep, with the fields assigned; it has committed \<^verbatim>\<open>wait_time\<close> times.
\<close>

lemma database_updater_locked_then_free:
  assumes locked: "\<forall>k. commits w \<le> k \<and> k < commits w + n \<longrightarrow>
             (\<exists>msg. commit_outcome e k = Failed msg \<and> contains ''locked'' msg)"
    and free: "\<forall>k. commits w + n \<le> k \<and> k < commits w + nat wait_time \<longrightarrow>
             commit_outcome e k = Committed"
    and budget: "int n < wait_time"
  shows "\<exists>w'. database_updater e (Dict kvs) j wait_time w = (Inr True, j ++ map_of (rev kvs), w')
             \<and> slept w' = slept w + n
             \<and> commits w' = commits w + nat wait_time"
proof -
  let ?j = "set_all kvs j"
  from budget obtain m where m: "nat wait_time = n + m"
    by (metis le_add_diff_inverse less_imp_le nat_int nat_mono)
  from retry_commit_locked_prefix[OF locked, of ?j m] obtain w1 where
    w1: "retry_commit e ?j (n + m) w = retry_commit e ?j m w1"
      "commits w1 = commits w + n" "slept w1 = slept w + n"
    by blast
  have "\<forall>k. commits w1 \<le> k \<and> k < commits w1 + m \<longrightarrow> commit_outcome e k = Committed"
    using free w1(2) m by simp
  from retry_commit_all_free[OF this, of ?j] obtain w' where
    w': "retry_commit e ?j m w1 = (Inr (), w')" "slept w' = slept w1" "commits w' = commits w1 + m"
    by (metis prod.collapse)
  have "retry_commit e ?j (nat wait_time) w = (Inr (), w')"
    unfolding m w1(1) w'(1) ..
  then show ?thesis
    unfolding database_updater_def
    by (simp add: m w1(2,3) w'(2,3) set_all_map_of del: retry_commit.simps)
qed

section \<open>Properties of job_dupe_check without a fingerprint\<close>

text \<open>
  C5. For a job whose \<^verbatim>\<open>crc_id\<close> is \<^verbatim>\<open>None\<close> the check returns
  \<^verbatim>\<open>(False, None)\<close> and leaves the job and the world as they are: the table was not
  queried (the count of queries is the same) and nothing was assigned to the job.
\<close>

theorem job_dupe_check_no_fingerprint:
  assumes "getattr j ''crc_id'' = PNone"
  shows "job_dupe_check e j w = (Inr (False, None), j, w)"
  using assms by (simp add: job_dupe_check_def)

theorem job_dupe_check_no_fingerprint_witness:
  "getattr [''job_id'' \<mapsto> PInt 7, ''label'' \<mapsto> PStr ''DISC''] ''crc_id'' = PNone
   \<and> job_dupe_check env0 [''job_id'' \<mapsto> PInt 7, ''label'' \<mapsto> PStr ''DISC''] world0
       = (Inr (False, None), [''job_id'' \<mapsto> PInt 7, ''label'' \<mapsto> PStr ''DISC''], world0)"
proof -
  have h: "getattr [''job_id'' \<mapsto> PInt 7, ''label'' \<mapsto> PStr ''DISC''] ''crc_id'' = PNone"
    by (simp add: getattr_def)
  show ?thesis
    using h job_dupe_check_no_fingerprint[OF h, of env0 world0] by simp
qed

section \<open>Properties of duplicate_run_check\<close>

lemma round_seconds_bounds:
  assumes "0 \<le> us"
  shows "us div 1000000 \<le> round_seconds us" "round_seconds us \<le> us div 1000000 + 1"
  by (simp_all add: round_seconds_def Let_def)

lemma round_seconds_minute:
  assumes "0 \<le> us" "us \<le> 60000000"
  shows "round_seconds us div 60 \<le> 1"
proof -
  have "round_seconds us \<le> 60"
  proof (cases "us = 60000000")
    case True
    then show ?thesis by (simp add: round_seconds_def Let_def)
  next
    case False
    with assms have "us div 1000000 \<le> 59" by simp
    with round_seconds_bounds(2)[OF assms(1)] show ?thesis by simp
  qed
  then show ?thesis by simp
qed

lemma round_seconds_five_minutes:
  assumes "300000000 \<le> us"
  shows "\<not> round_seconds us div 60 \<le> 1"
proof -
  from assms have "300 \<le> us div 1000000" by simp
  moreover from assms have "us div 1000000 \<le> round_seconds us"
    by (intro round_seconds_bounds) simp
  ultimately have "300 \<le> round_seconds us" by simp
  then show ?thesis by simp
qed

lemma recent_run_old:
  assumes "\<forall>j \<in> set js. \<exists>t. getattr j ''start_time'' = PDateTime t
                            \<and> (\<forall>k. 300000000 \<le> clock e k - t)"
  shows "recent_run e js w = (Inr (), w\<lparr>clock_reads := clock_reads w + 2 * length js\<rparr>)"
  using assms
proof (induction js arbitrary: w)
  case Nil
  then show ?case by simp
next
  case (Cons j js)
  from Cons.prems obtain t where
    t: "getattr j ''start_time'' = PDateTime t" "\<forall>k. 300000000 \<le> clock e k - t"
    by auto
  have "300000000 \<le> \<bar>t - clock e (Suc (clock_reads w))\<bar>"
    using t(2)[rule_format, of "Suc (clock_reads w)"] by simp
  then have far: "\<not> round_seconds \<bar>t - clock e (Suc (clock_reads w))\<bar> div 60 \<le> 1"
    by (rule round_seconds_five_minutes)
  have "recent_run e (j # js) w = recent_run e js (w\<lparr>clock_reads := clock_reads w + 2\<rparr>)"
    using t(1) far by (simp add: Let_def)
  also have "\<dots> = (Inr (), w\<lparr>clock_reads := clock_reads w + 2 * length (j # js)\<rparr>)"
    using Cons.prems by (subst Cons.IH) simp_all
  finally show ?case .
qed

lemma recent_run_recent:
  assumes "\<forall>j \<in> set js. \<exists>t. getattr j ''start_time'' = PDateTime t"
    and "\<exists>j \<in> set js. \<exists>t. getattr j ''start_time'' = PDateTime t
                            \<and> (\<forall>k. 0 \<le> clock e k - t \<and> clock e k - t \<le> 60000000)"
  shows "\<exists>w'. recent_run e js w = (Inl (SystemExit (PInt 1)), w')"
  using assms
proof (induction js arbitrary: w)
  case Nil
  then show ?case by simp
next
  case (Cons j js)
  from Cons.prems(1) obtain t where t: "getattr j ''start_time'' = PDateTime t"
    by auto
  let ?mins = "round_seconds \<bar>t - clock e (Suc (clock_reads w))\<bar> div 60"
  show ?case
  proof (cases "?mins \<le> 1")
    case True
    then show ?thesis using t by (simp add: Let_def)
  next
    case False
    have "\<not> (\<forall>k. 0 \<le> clock e k - t \<and> clock e k - t \<le> 60000000)"
    proof
      assume a: "\<forall>k. 0 \<le> clock e k - t \<and> clock e k - t \<le> 60000000"
      then have "0 \<le> \<bar>t - clock e (Suc (clock_reads w))\<bar>"
        "\<bar>t - clock e (Suc (clock_reads w))\<bar> \<le> 60000000"
        using a[rule_format, of "Suc (clock_reads w)"] by simp_all
      then have "?mins \<le> 1" by (rule round_seconds_minute)
      with False show False by simp
    qed
    with Cons.prems(2) t have tail: "\<exists>j \<in> set js. \<exists>t. getattr j ''start_time'' = PDateTime t
                            \<and> (\<forall>k. 0 \<le> clock e k - t \<and> clock e k - t \<le> 60000000)"
      by auto
    have "recent_run e (j # js) w = recent_run e js (w\<lparr>clock_reads := clock_reads w + 2\<rparr>)"
      using t False by (simp add: Let_def)
    with Cons.IH[OF _ tail] Cons.prems(1) show ?thesis by simp
  qed
qed

text \<open>
  C7. Among the jobs of the table that are not terminal and are bound to the device
  (each with a start time; the model's times are microseconds):
  when one of them was started at most one minute before every reading of the clock, the
  call raises \<^verbatim>\<open>SystemExit(1)\<close>, which ends the process with a status that is not 0;
  when every one of them was started five minutes or more before every reading of the
  clock, the call returns, having queried the table once and read the clock twice for
  each job.
\<close>

theorem duplicate_run_check_window:
  "((\<forall>j \<in> set (table w). running_on dev_path j \<longrightarrow> (\<exists>t. getattr j ''start_time'' = PDateTime t))
    \<and> (\<exists>j \<in> set (table w). running_on dev_path j
          \<and> (\<exists>t. getattr j ''start_time'' = PDateTime t
                \<and> (\<forall>k. 0 \<le> clock e k - t \<and> clock e k - t \<le> 60000000)))
    \<longrightarrow> (\<exists>w'. duplicate_run_check e dev_path w = (Inl (SystemExit (PInt 1)), w'))
        \<and> exit_status (PInt 1) \<noteq> 0)
   \<and> ((\<forall>j \<in> set (table w). running_on dev_path j
          \<longrightarrow> (\<exists>t. getattr j ''start_time'' = PDateTime t \<and> (\<forall>k. 300000000 \<le> clock e k - t)))
    \<longrightarrow> duplicate_run_check e dev_path w
          = (Inr PNone, w\<lparr>queries := Suc (queries w),
                           clock_reads := clock_reads w
                             + 2 * length (filter (running_on dev_path) (table w))\<rparr>))"
proof (intro conjI impI)
  assume a: "(\<forall>j \<in> set (table w). running_on dev_path j \<longrightarrow> (\<exists>t. getattr j ''start_time'' = PDateTime t))
    \<and> (\<exists>j \<in> set (table w). running_on dev_path j
          \<and> (\<exists>t. getattr j ''start_time'' = PDateTime t
                \<and> (\<forall>k. 0 \<le> clock e k - t \<and> clock e k - t \<le> 60000000)))"
  let ?js = "filter (running_on dev_path) (table w)"
  from a have 1: "\<forall>j \<in> set ?js. \<exists>t. getattr j ''start_time'' = PDateTime t"
    by simp
  from a have 2: "\<exists>j \<in> set ?js. \<exists>t. getattr j ''start_time'' = PDateTime t
                            \<and> (\<forall>k. 0 \<le> clock e k - t \<and> clock e k - t \<le> 60000000)"
    by auto
  from recent_run_recent[OF 1 2, of "w\<lparr>queries := Suc (queries w)\<rparr>"]
  show "\<exists>w'. duplicate_run_check e dev_path w = (Inl (SystemExit (PInt 1)), w')"
    by (auto simp: duplicate_run_check_def)
next
  show "exit_status (PInt 1) \<noteq> 0" by simp
next
  assume a: "\<forall>j \<in> set (table w). running_on dev_path j
          \<longrightarrow> (\<exists>t. getattr j ''start_time'' = PDateTime t \<and> (\<forall>k. 300000000 \<le> clock e k - t))"
  let ?js = "filter (running_on dev_path) (table w)"
  from a have "\<forall>j \<in> set ?js. \<exists>t. getattr j ''start_time'' = PDateTime t
                            \<and> (\<forall>k. 300000000 \<le> clock e k - t)"
    by simp
  from recent_run_old[OF this, of "w\<lparr>queries := Suc (queries w)\<rparr>"]
  show "duplicate_run_check e dev_path w
          = (Inr PNone, w\<lparr>queries := Suc (queries w),
                           clock_reads := clock_reads w
                             + 2 * length (filter (running_on dev_path) (table w))\<rparr>)"
    by (simp add: duplicate_run_check_def)
qed

lemma running_on_job_sr0: "running_on ''/dev/sr0'' (job_sr0 t)"
  by (simp add: running_on_def non_terminal_def sql_notin_def sql_eq_def getattr_def job_sr0_def)

lemma start_time_job_sr0: "getattr (job_sr0 t) ''start_time'' = PDateTime t"
  by (simp add: getattr_def job_sr0_def)

theorem duplicate_run_check_window_witness:
  "(\<exists>w'. duplicate_run_check (env_at 1730723696000000) ''/dev/sr0''
            (world0\<lparr>table := [job_sr0 1730723666000000]\<rparr>) = (Inl (SystemExit (PInt 1)), w'))
   \<and> duplicate_run_check (env_at 1730723696000000) ''/dev/sr0''
        (world0\<lparr>table := [job_sr0 1730723396000000]\<rparr>)
      = (Inr PNone, world0\<lparr>table := [job_sr0 1730723396000000], queries := 1, clock_reads := 2\<rparr>)"
proof
  let ?e = "env_at 1730723696000000"
  let ?w = "world0\<lparr>table := [job_sr0 1730723666000000]\<rparr>"
  have "(\<forall>j \<in> set (table ?w). running_on ''/dev/sr0'' j \<longrightarrow> (\<exists>t. getattr j ''start_time'' = PDateTime t))
    \<and> (\<exists>j \<in> set (table ?w). running_on ''/dev/sr0'' j
          \<and> (\<exists>t. getattr j ''start_time'' = PDateTime t
                \<and> (\<forall>k. 0 \<le> clock ?e k - t \<and> clock ?e k - t \<le> 60000000)))"
    by (simp add: running_on_job_sr0 start_time_job_sr0 env_at_def)
  with duplicate_run_check_window[of ?w "''/dev/sr0''" ?e]
  show "\<exists>w'. duplicate_run_check ?e ''/dev/sr0'' ?w = (Inl (SystemExit (PInt 1)), w')"
    by blast
next
  let ?e = "env_at 1730723696000000"
  let ?w = "world0\<lparr>table := [job_sr0 1730723396000000]\<rparr>"
  have "\<forall>j \<in> set (table ?w). running_on ''/dev/sr0'' j
          \<longrightarrow> (\<exists>t. getattr j ''start_time'' = PDateTime t \<and> (\<forall>k. 300000000 \<le> clock ?e k - t))"
    by (simp add: running_on_job_sr0 start_time_job_sr0 env_at_def)
  with duplicate_run_check_window[of ?w "''/dev/sr0''" ?e]
  show "duplicate_run_check ?e ''/dev/sr0'' ?w
      = (Inr PNone, world0\<lparr>table := [job_sr0 1730723396000000], queries := 1, clock_reads := 2\<rparr>)"
    by (simp add: running_on_job_sr0 world0_def)
qed

section \<open>Properties of clean_old_jobs\<close>

text \<open>When the job identifiers of the table are distinct, a commit replaces the one
  row of the job, and reading the job's row finds that one row.\<close>

lemma job_id_mark_failed: "getattr (mark_failed j) ''job_id'' = getattr j ''job_id''"
  by (simp add: mark_failed_def getattr_setattr)

lemma persist_row:
  assumes d: "distinct (map (\<lambda>r. getattr r ''job_id'') rows)"
    and j: "j \<in> set rows"
    and id: "getattr j' ''job_id'' = getattr j ''job_id''"
  shows "persist j' rows = map (\<lambda>r. if r = j then j' else r) rows"
proof -
  from d have inj: "inj_on (\<lambda>r. getattr r ''job_id'') (set rows)"
    by (simp add: distinct_map)
  have same: "same_row j' r \<longleftrightarrow> r = j" if "r \<in> set rows" for r
    using inj_onD[OF inj _ that j] id by (auto simp: same_row_def)
  then have "\<exists>r \<in> set rows. same_row j' r"
    using j by blast
  then have "persist j' rows = map (\<lambda>r. if same_row j' r then j' else r) rows"
    by (simp add: persist_def)
  also have "\<dots> = map (\<lambda>r. if r = j then j' else r) rows"
    using same by (intro map_cong) auto
  finally show ?thesis .
qed

lemma find_row:
  assumes d: "distinct (map (\<lambda>r. getattr r ''job_id'') rows)"
    and j: "j \<in> set rows"
    and g: "\<And>r. getattr (g r) ''job_id'' = getattr r ''job_id''"
  shows "find (same_row j) (map g rows) = Some (g j)"
  using d j
proof (induction rows)
  case Nil
  then show ?case by simp
next
  case (Cons r rows)
  show ?case
  proof (cases "r = j")
    case True
    then show ?thesis by (simp add: same_row_def g)
  next
    case False
    with Cons.prems have "j \<in> set rows" "getattr r ''job_id'' \<noteq> getattr j ''job_id''"
      by auto
    with Cons show ?thesis by (simp add: same_row_def g)
  qed
qed

text \<open>
  The table after the sweep, when every commit succeeds: the jobs of the list whose
  process is gone are marked failed, every other row is as it was.
\<close>

lemma sweep_table:
  assumes "distinct (map (\<lambda>r. getattr r ''job_id'') (table w))"
    and "set js \<subseteq> set (table w)"
    and "distinct js"
    and "\<forall>j \<in> set js. as_int (getattr j ''pid'') \<noteq> None"
    and ok: "\<forall>k. commit_outcome e k = Committed"
  shows "\<exists>w'. sweep e js w = (Inr (), w')
             \<and> table w' = map (\<lambda>r. if r \<in> set js \<and> gone e r then mark_failed r else r) (table w)"
  using assms(1-4)
proof (induction js arbitrary: w)
  case Nil
  show ?case by (rule exI[of _ w]) (simp add: map_idI)
next
  case (Cons j js)
  from Cons.prems(4) obtain pid where pid: "as_int (getattr j ''pid'') = Some pid"
    by auto
  have j_in: "j \<in> set (table w)" and j_notin: "j \<notin> set js"
    using Cons.prems(2,3) by auto
  show ?case
  proof (cases "proc_table e pid")
    case (Some h)
    then have step: "sweep e (j # js) w = sweep e js w"
      using pid by simp
    have ng: "\<not> gone e j"
      using pid Some by (simp add: gone_def)
    from Cons.IH[of w] Cons.prems obtain w' where
      w': "sweep e js w = (Inr (), w')"
        "table w' = map (\<lambda>r. if r \<in> set js \<and> gone e r then mark_failed r else r) (table w)"
      by auto
    have "table w' = map (\<lambda>r. if r \<in> set (j # js) \<and> gone e r then mark_failed r else r) (table w)"
      unfolding w'(2) using ng by (intro map_cong) auto
    with w'(1) step show ?thesis by simp
  next
    case None
    define w1 where
      "w1 = w\<lparr>commits := Suc (commits w), table := persist (mark_failed j) (table w)\<rparr>"
    have step: "sweep e (j # js) w = sweep e js w1"
      using pid None ok by (simp add: commit_def w1_def mark_failed_def)
    have g: "gone e j"
      using pid None by (simp add: gone_def)
    have t1: "table w1 = map (\<lambda>r. if r = j then mark_failed j else r) (table w)"
      unfolding w1_def using persist_row[OF Cons.prems(1) j_in job_id_mark_failed]
      by simp
    have ids1: "map (\<lambda>r. getattr r ''job_id'') (table w1) = map (\<lambda>r. getattr r ''job_id'') (table w)"
      unfolding t1 by (simp add: job_id_mark_failed o_def cong: if_cong)
    have sub1: "set js \<subseteq> set (table w1)"
    proof
      fix r assume r: "r \<in> set js"
      with Cons.prems(2) j_notin have "r \<in> set (table w)" "r \<noteq> j" by auto
      then show "r \<in> set (table w1)" unfolding t1 by force
    qed
    from Cons.IH[of w1] Cons.prems ids1 sub1 obtain w' where
      w': "sweep e js w1 = (Inr (), w')"
        "table w' = map (\<lambda>r. if r \<in> set js \<and> gone e r then mark_failed r else r) (table w1)"
      by auto
    have failed_notin: "mark_failed j \<notin> set js"
    proof
      assume a: "mark_failed j \<in> set js"
      with Cons.prems(2) have "mark_failed j \<in> set (table w)" by auto
      moreover from Cons.prems(1) have "inj_on (\<lambda>r. getattr r ''job_id'') (set (table w))"
        by (simp add: distinct_map)
      ultimately have "mark_failed j = j"
        using j_in job_id_mark_failed by (auto dest: inj_onD)
      with a j_notin show False by simp
    qed
    have "table w' = map (\<lambda>r. if r \<in> set (j # js) \<and> gone e r then mark_failed r else r) (table w)"
      unfolding w'(2) t1 map_map
      using g failed_notin j_notin by (intro map_cong) auto
    with w'(1) step show ?thesis by simp
  qed
qed

text \<open>
  C2, as amended. With distinct job identifiers, numbers as PIDs and commits that
  succeed: the sweep returns \<^verbatim>\<open>None\<close>, and every non-terminal job whose PID is not
  in the process table has the status \<^verbatim>\<open>fail\<close> in its row of the store afterwards.
\<close>

theorem clean_old_jobs_marks_abandoned:
  assumes ids: "distinct (map (\<lambda>r. getattr r ''job_id'') (table w))"
    and pids: "\<forall>j \<in> set (table w). non_terminal j \<longrightarrow> as_int (getattr j ''pid'') \<noteq> None"
    and ok: "\<forall>k. commit_outcome e k = Committed"
  shows "\<exists>w'. clean_old_jobs e w = (Inr PNone, w')
             \<and> (\<forall>j \<in> set (table w).
                   non_terminal j
                   \<and> (\<exists>pid. as_int (getattr j ''pid'') = Some pid \<and> proc_table e pid = None)
                   \<longrightarrow> refresh j w' = Some (setattr j ''status'' (PStr ''fail'')))"
proof -
  let ?js = "filter non_terminal (table w)"
  let ?w = "w\<lparr>queries := Suc (queries w)\<rparr>"
  let ?g = "\<lambda>r. if r \<in> set ?js \<and> gone e r then mark_failed r else r"
  from ids have "distinct (table w)"
    by (simp add: distinct_map)
  then have "distinct ?js" by simp
  with sweep_table[of ?w ?js e] ids pids ok obtain w' where
    w': "sweep e ?js ?w = (Inr (), w')" "table w' = map ?g (table w)"
    by auto
  have "refresh j w' = Some (setattr j ''status'' (PStr ''fail''))"
    if "j \<in> set (table w)" "non_terminal j"
      "\<exists>pid. as_int (getattr j ''pid'') = Some pid \<and> proc_table e pid = None" for j
  proof -
    have "find (same_row j) (map ?g (table w)) = Some (?g j)"
      using ids that(1) by (rule find_row) (simp add: job_id_mark_failed)
    with that show ?thesis
      by (simp add: refresh_def w'(2) gone_def mark_failed_def)
  qed
  with w'(1) show ?thesis
    by (auto simp: clean_old_jobs_def)
qed

lemma non_terminal_job_sr0: "non_terminal (job_sr0 t)"
  by (simp add: non_terminal_def sql_notin_def getattr_def job_sr0_def)

lemma pid_job_sr0: "as_int (getattr (job_sr0 t) ''pid'') = Some 4242"
  by (simp add: getattr_def job_sr0_def)

theorem clean_old_jobs_marks_abandoned_witness:
  "\<exists>w'. clean_old_jobs env0 (world0\<lparr>table := [job_sr0 0]\<rparr>) = (Inr PNone, w')
        \<and> refresh (job_sr0 0) w' = Some (setattr (job_sr0 0) ''status'' (PStr ''fail''))"
proof -
  let ?w = "world0\<lparr>table := [job_sr0 0]\<rparr>"
  have ids: "distinct (map (\<lambda>r. getattr r ''job_id'') (table ?w))"
    by simp
  have pids: "\<forall>j \<in> set (table ?w). non_terminal j \<longrightarrow> as_int (getattr j ''pid'') \<noteq> None"
    by (simp add: pid_job_sr0)
  have ok: "\<forall>k. commit_outcome env0 k = Committed"
    by (simp add: env0_def)
  have "non_terminal (job_sr0 0)
        \<and> (\<exists>pid. as_int (getattr (job_sr0 0) ''pid'') = Some pid \<and> proc_table env0 pid = None)"
    by (simp add: non_terminal_job_sr0 pid_job_sr0 env0_def)
  with clean_old_jobs_marks_abandoned[OF ids pids ok] show ?thesis
    by fastforce
qed

text \<open>
  C2 as stated fails twice. A job whose PID 4242 is alive under another fingerprint
  (9999 instead of 1111) is left as it is: the sweep commits nothing and the status stays
  \<^verbatim>\<open>active\<close>. And when process 4242 is gone the job is marked failed, yet the value
  returned is \<^verbatim>\<open>None\<close>, not the count 1.
\<close>

theorem clean_old_jobs_counterexample:
  "getattr (job_sr0 0) ''pid_hash'' \<noteq> PInt 9999
   \<and> clean_old_jobs (env0\<lparr>proc_table := [4242 \<mapsto> 9999]\<rparr>) (world0\<lparr>table := [job_sr0 0]\<rparr>)
       = (Inr PNone, world0\<lparr>table := [job_sr0 0], queries := 1\<rparr>)
   \<and> getattr (job_sr0 0) ''status'' = PStr ''active''
   \<and> clean_old_jobs env0 (world0\<lparr>table := [job_sr0 0]\<rparr>)
       = (Inr PNone, world0\<lparr>table := [setattr (job_sr0 0) ''status'' (PStr ''fail'')],
                            commits := 1, queries := 1\<rparr>)"
  by (simp add: clean_old_jobs_def non_terminal_job_sr0 pid_job_sr0 commit_def persist_def
        same_row_def getattr_setattr env0_def world0_def)
    (simp add: getattr_def job_sr0_def)

section \<open>Properties of job_dupe_check with a fingerprint\<close>

text \<open>When no commit fails for another reason than a lock, \<^verbatim>\<open>database_updater\<close>
  returns True; when the first commit does, it raises.\<close>

lemma retry_commit_nonfatal:
  assumes "\<forall>k. nonfatal (commit_outcome e k)"
  shows "\<exists>w'. retry_commit e j n w = (Inr (), w') \<and> files w' = files w \<and> queries w' = queries w"
proof (induction n arbitrary: w)
  case 0
  show ?case by (rule exI[of _ w]) simp
next
  case (Suc n)
  show ?case
  proof (cases "commit_outcome e (commits w)")
    case Committed
    define w1 where "w1 = w\<lparr>commits := Suc (commits w), table := persist j (table w)\<rparr>"
    have "retry_commit e j (Suc n) w = retry_commit e j n w1"
      using Committed by (simp add: commit_def w1_def)
    moreover have "files w1 = files w" "queries w1 = queries w"
      by (simp_all add: w1_def)
    ultimately show ?thesis using Suc.IH[of w1] by auto
  next
    case (Failed msg)
    with assms[rule_format, of "commits w"] have l: "contains ''locked'' msg"
      by (simp add: nonfatal_def)
    define w1 where "w1 = sleep e 1 (w\<lparr>commits := Suc (commits w)\<rparr>)"
    have "retry_commit e j (Suc n) w = retry_commit e j n w1"
      using Failed l by (simp add: commit_def w1_def)
    moreover have "files w1 = files w" "queries w1 = queries w"
      by (simp_all add: w1_def sleep_def)
    ultimately show ?thesis using Suc.IH[of w1] by auto
  qed
qed

lemma database_updater_nonfatal:
  assumes "\<forall>k. nonfatal (commit_outcome e k)"
  shows "\<exists>w'. database_updater e (Dict kvs) j wait_time w = (Inr True, j ++ map_of (rev kvs), w')
             \<and> files w' = files w \<and> queries w' = queries w"
proof -
  from retry_commit_nonfatal[OF assms, of "set_all kvs j" "nat wait_time" w] obtain w' where
    "retry_commit e (set_all kvs j) (nat wait_time) w = (Inr (), w')"
    "files w' = files w" "queries w' = queries w"
    by blast
  then show ?thesis
    unfolding database_updater_def by (simp add: set_all_map_of del: retry_commit.simps)
qed

lemma database_updater_fatal:
  assumes "commit_outcome e (commits w) = Failed msg" "\<not> contains ''locked'' msg" "0 < wait_time"
  shows "database_updater e (Dict kvs) j wait_time w
           = (Inl (RuntimeError msg), j ++ map_of (rev kvs), w\<lparr>commits := Suc (commits w)\<rparr>)"
proof -
  from assms(3) obtain n where n: "nat wait_time = Suc n"
    by (cases "nat wait_time") auto
  show ?thesis
    unfolding database_updater_def
    by (simp add: n retry_commit_fatal_first[OF assms(1,2)] set_all_map_of
             del: retry_commit.simps)
qed

text \<open>
  C6, as amended. For a job with a fingerprint, when the query finds previous rips, the
  record of the first has the five keys, and no commit fails for another reason than a
  lock: the check returns \<^verbatim>\<open>True\<close> with the records of all the rips found, has
  queried the table once, and has assigned to the job, from the first record (whose
  values are strings): the title, or the job's label when the title is empty; the year;
  the poster URL, or \<^verbatim>\<open>None\<close> when it is empty; whether the flag reads
  \<^verbatim>\<open>true\<close>; the classification, or \<^verbatim>\<open>unknown\<close> when the flag is empty.
\<close>

theorem job_dupe_check_copies_first_record:
  assumes fp: "getattr j ''crc_id'' \<noteq> PNone"
    and prior: "filter (previous_rip j) (table w) = p # ps"
    and title: "stringify (get_d e p) ''title'' = Some t"
    and year: "stringify (get_d e p) ''year'' = Some y"
    and poster: "stringify (get_d e p) ''poster_url'' = Some pu"
    and flag: "stringify (get_d e p) ''hasnicetitle'' = Some h"
    and type: "stringify (get_d e p) ''video_type'' = Some vt"
    and ok: "\<forall>k. nonfatal (commit_outcome e k)"
  shows "\<exists>w'. job_dupe_check e j w =
               (Inr (True, Some (map (\<lambda>r. stringify (get_d e r)) (p # ps))),
                j(''title'' \<mapsto> (if t \<noteq> [] then PStr t else getattr j ''label''),
                  ''year'' \<mapsto> PStr y,
                  ''poster_url'' \<mapsto> (if pu \<noteq> [] then PStr pu else PNone),
                  ''hasnicetitle'' \<mapsto> PBool (lower h = ''true''),
                  ''video_type'' \<mapsto> (if h \<noteq> [] then PStr vt else PStr ''unknown'')),
                w')
             \<and> queries w' = Suc (queries w)"
proof -
  let ?args = "[(''title'', if t \<noteq> [] then PStr t else getattr j ''label''),
               (''year'', PStr y),
               (''poster_url'', if pu \<noteq> [] then PStr pu else PNone),
               (''hasnicetitle'', PBool (lower h = ''true'')),
               (''video_type'', if h \<noteq> [] then PStr vt else PStr ''unknown'')]"
  have args: "active_rip (stringify (get_d e p)) j = Inr ?args"
    by (simp add: active_rip_def lookup_def title year poster flag type)
  from database_updater_nonfatal[OF ok, of ?args j 90 "w\<lparr>queries := Suc (queries w)\<rparr>"]
  obtain w' where
    w': "database_updater e (Dict ?args) j 90 (w\<lparr>queries := Suc (queries w)\<rparr>)
           = (Inr True, j ++ map_of (rev ?args), w')"
      "queries w' = Suc (queries w)"
    by auto
  have j': "j ++ map_of (rev ?args) =
            j(''title'' \<mapsto> (if t \<noteq> [] then PStr t else getattr j ''label''),
              ''year'' \<mapsto> PStr y,
              ''poster_url'' \<mapsto> (if pu \<noteq> [] then PStr pu else PNone),
              ''hasnicetitle'' \<mapsto> PBool (lower h = ''true''),
              ''video_type'' \<mapsto> (if h \<noteq> [] then PStr vt else PStr ''unknown''))"
    by (auto simp: fun_eq_iff map_add_def)
  show ?thesis
    unfolding job_dupe_check_def
    using fp by (simp add: prior args w' j' Let_def)
qed

lemma previous_rip_alpha: "previous_rip job_alpha prior_alpha" "\<not> previous_rip job_alpha job_alpha"
  by (simp_all add: previous_rip_def sql_eq_def getattr_def job_alpha_def prior_alpha_def)

lemma record_alpha:
  "stringify (get_d env0 prior_alpha) ''title'' = Some ''Alpha (2001)''"
  "stringify (get_d env0 prior_alpha) ''year'' = Some ''2001''"
  "stringify (get_d env0 prior_alpha) ''poster_url'' = Some ''http://img/alpha.jpg''"
  "stringify (get_d env0 prior_alpha) ''hasnicetitle'' = Some ''True''"
  "stringify (get_d env0 prior_alpha) ''video_type'' = Some ''movie''"
  by (simp_all add: stringify_def env0_def prior_alpha_def)

lemma nonfatal_env0: "\<forall>k. nonfatal (commit_outcome env0 k)"
  by (simp add: nonfatal_def env0_def)

lemma lower_True: "lower ''True'' = ''true''"
  by (simp add: lower_def lower_char_def)

theorem job_dupe_check_copies_first_record_witness:
  "\<exists>w'. job_dupe_check env0 job_alpha (world0\<lparr>table := [prior_alpha, job_alpha]\<rparr>) =
          (Inr (True, Some [stringify prior_alpha]),
           job_alpha(''title'' \<mapsto> PStr ''Alpha (2001)'', ''year'' \<mapsto> PStr ''2001'',
                     ''poster_url'' \<mapsto> PStr ''http://img/alpha.jpg'',
                     ''hasnicetitle'' \<mapsto> PBool True, ''video_type'' \<mapsto> PStr ''movie''),
           w')
        \<and> queries w' = 1"
proof -
  let ?w = "world0\<lparr>table := [prior_alpha, job_alpha]\<rparr>"
  have fp: "getattr job_alpha ''crc_id'' \<noteq> PNone"
    by (simp add: getattr_def job_alpha_def)
  have prior: "filter (previous_rip job_alpha) (table ?w) = prior_alpha # []"
    by (simp add: previous_rip_alpha)
  have q: "queries ?w = 0"
    by (simp add: world0_def)
  have g: "get_d env0 prior_alpha = prior_alpha"
    by (simp add: env0_def)
  show ?thesis
    using job_dupe_check_copies_first_record[OF fp prior record_alpha nonfatal_env0]
    by (simp add: lower_True q g)
qed

text \<open>
  C6 as stated fails. The previous rip that has no poster (\<^verbatim>\<open>None\<close>) gives the job
  the poster URL \<^verbatim>\<open>'None'\<close>, a string. And when the commit fails with a disk error
  the check raises RuntimeError and returns nothing.
\<close>

theorem job_dupe_check_counterexample:
  "getattr prior_no_poster ''poster_url'' = PNone
   \<and> (\<exists>w'. job_dupe_check env0 job_alpha (world0\<lparr>table := [prior_no_poster, job_alpha]\<rparr>) =
          (Inr (True, Some [stringify prior_no_poster]),
           job_alpha(''title'' \<mapsto> PStr ''Alpha (2001)'', ''year'' \<mapsto> PStr ''2001'',
                     ''poster_url'' \<mapsto> PStr ''None'',
                     ''hasnicetitle'' \<mapsto> PBool True, ''video_type'' \<mapsto> PStr ''movie''),
           w'))
   \<and> job_dupe_check (env0\<lparr>commit_outcome := (\<lambda>k. Failed ''disk I/O error'')\<rparr>) job_alpha
        (world0\<lparr>table := [prior_alpha, job_alpha]\<rparr>) =
          (Inl (RuntimeError ''disk I/O error''),
           job_alpha(''title'' \<mapsto> PStr ''Alpha (2001)'', ''year'' \<mapsto> PStr ''2001'',
                     ''poster_url'' \<mapsto> PStr ''http://img/alpha.jpg'',
                     ''hasnicetitle'' \<mapsto> PBool True, ''video_type'' \<mapsto> PStr ''movie''),
           world0\<lparr>table := [prior_alpha, job_alpha], commits := 1, queries := 1\<rparr>)"
proof (intro conjI)
  show "getattr prior_no_poster ''poster_url'' = PNone"
    by (simp add: getattr_def prior_no_poster_def)
next
  let ?w = "world0\<lparr>table := [prior_no_poster, job_alpha]\<rparr>"
  let ?args = "[(''title'', PStr ''Alpha (2001)''), (''year'', PStr ''2001''),
                (''poster_url'', PStr ''None''), (''hasnicetitle'', PBool True),
                (''video_type'', PStr ''movie'')]"
  have fp: "getattr job_alpha ''crc_id'' \<noteq> PNone"
    by (simp add: getattr_def job_alpha_def)
  have "previous_rip job_alpha prior_no_poster"
    by (simp add: previous_rip_def sql_eq_def getattr_def job_alpha_def prior_alpha_def
          prior_no_poster_def)
  then have prior: "filter (previous_rip job_alpha) [prior_no_poster, job_alpha] = [prior_no_poster]"
    using previous_rip_alpha(2) by simp
  have args: "active_rip (stringify (get_d env0 prior_no_poster)) job_alpha = Inr ?args"
    by (simp add: active_rip_def lookup_def stringify_def env0_def prior_alpha_def
          prior_no_poster_def lower_True)
  from database_updater_nonfatal[OF nonfatal_env0, of ?args job_alpha 90 "?w\<lparr>queries := Suc (queries ?w)\<rparr>"]
  obtain w' where
    "database_updater env0 (Dict ?args) job_alpha 90 (?w\<lparr>queries := Suc (queries ?w)\<rparr>)
       = (Inr True, job_alpha ++ map_of (rev ?args), w')"
    by auto
  moreover have "job_alpha ++ map_of (rev ?args) =
      job_alpha(''title'' \<mapsto> PStr ''Alpha (2001)'', ''year'' \<mapsto> PStr ''2001'',
                     ''poster_url'' \<mapsto> PStr ''None'',
                     ''hasnicetitle'' \<mapsto> PBool True, ''video_type'' \<mapsto> PStr ''movie'')"
    by (auto simp: fun_eq_iff map_add_def)
  moreover have "get_d env0 prior_no_poster = prior_no_poster"
    by (simp add: env0_def)
  ultimately show "\<exists>w'. job_dupe_check env0 job_alpha ?w =
          (Inr (True, Some [stringify prior_no_poster]),
           job_alpha(''title'' \<mapsto> PStr ''Alpha (2001)'', ''year'' \<mapsto> PStr ''2001'',
                     ''poster_url'' \<mapsto> PStr ''None'',
                     ''hasnicetitle'' \<mapsto> PBool True, ''video_type'' \<mapsto> PStr ''movie''),
           w')"
    unfolding job_dupe_check_def using fp args
    by (simp add: prior Let_def del: filter.simps)
next
  let ?e = "env0\<lparr>commit_outcome := (\<lambda>k. Failed ''disk I/O error'')\<rparr>"
  let ?w = "world0\<lparr>table := [prior_alpha, job_alpha]\<rparr>"
  let ?args = "[(''title'', PStr ''Alpha (2001)''), (''year'', PStr ''2001''),
                (''poster_url'', PStr ''http://img/alpha.jpg''), (''hasnicetitle'', PBool True),
                (''video_type'', PStr ''movie'')]"
  have fp: "getattr job_alpha ''crc_id'' \<noteq> PNone"
    by (simp add: getattr_def job_alpha_def)
  have prior: "filter (previous_rip job_alpha) [prior_alpha, job_alpha] = [prior_alpha]"
    by (simp add: previous_rip_alpha)
  have args: "active_rip (stringify (get_d ?e prior_alpha)) job_alpha = Inr ?args"
    by (simp add: active_rip_def lookup_def stringify_def env0_def prior_alpha_def lower_True)
  have "database_updater ?e (Dict ?args) job_alpha 90 (?w\<lparr>queries := Suc (queries ?w)\<rparr>)
       = (Inl (RuntimeError ''disk I/O error''), job_alpha ++ map_of (rev ?args),
          ?w\<lparr>queries := Suc (queries ?w), commits := Suc (commits (?w\<lparr>queries := Suc (queries ?w)\<rparr>))\<rparr>)"
    by (rule database_updater_fatal) simp_all
  moreover have "job_alpha ++ map_of (rev ?args) =
      job_alpha(''title'' \<mapsto> PStr ''Alpha (2001)'', ''year'' \<mapsto> PStr ''2001'',
                     ''poster_url'' \<mapsto> PStr ''http://img/alpha.jpg'',
                     ''hasnicetitle'' \<mapsto> PBool True, ''video_type'' \<mapsto> PStr ''movie'')"
    by (auto simp: fun_eq_iff map_add_def)
  ultimately show "job_dupe_check ?e job_alpha ?w =
          (Inl (RuntimeError ''disk I/O error''),
           job_alpha(''title'' \<mapsto> PStr ''Alpha (2001)'', ''year'' \<mapsto> PStr ''2001'',
                     ''poster_url'' \<mapsto> PStr ''http://img/alpha.jpg'',
                     ''hasnicetitle'' \<mapsto> PBool True, ''video_type'' \<mapsto> PStr ''movie''),
           world0\<lparr>table := [prior_alpha, job_alpha], commits := 1, queries := 1\<rparr>)"
    unfolding job_dupe_check_def using fp args
    by (simp add: prior Let_def world0_def del: filter.simps)
qed

section \<open>Properties of check_for_wait\<close>






section \<open>Properties of rip_data\<close>

lemma dd_error_message_nonempty: "dd_error_message returncode output \<noteq> []"
  by (simp add: dd_error_message_def)

lemma files_rmtree:
  "\<not> rmtree_fails e p \<Longrightarrow> p \<notin> set (files (rmtree e p w))"
  by (simp add: rmtree_def below_def)

lemma files_rmtree_subset: "set (files (rmtree e p w)) \<subseteq> set (files w)"
  by (auto simp: rmtree_def)

text \<open>
  C8, as amended. When the directories are in order, the copy fails and has left the
  partial file, and no commit fails for another reason than a lock: \<^verbatim>\<open>rip_data\<close>
  returns \<^verbatim>\<open>False\<close>; the job has the status \<^verbatim>\<open>fail\<close> and the error message,
  which is not empty; the partial file is gone; the files are what the removal of the
  staging directory leaves of them, and the staging directory is not among them unless
  the removal failed.
\<close>

theorem rip_data_copy_fails:
  assumes fs: "get_filesystem_in_order e (default_label j) w = (Inr paths, w1)"
    and dd: "run_cmd e (dd_cmd e (default_label j) (incomplete_filename paths)) (files w1)
               = (CalledProcessError returncode output, fs)"
    and part: "incomplete_filename paths \<in> set fs"
    and ok: "\<forall>k. nonfatal (commit_outcome e k)"
  shows "\<exists>w'. rip_data e j w =
               (Inr False,
                (default_label j)(''status'' \<mapsto> PStr ''fail'',
                                  ''errors'' \<mapsto> PStr (dd_error_message returncode output)),
                w')
             \<and> dd_error_message returncode output \<noteq> []
             \<and> incomplete_filename paths \<notin> set (files w')
             \<and> files w' = files (rmtree e (raw_path paths)
                                    (w1\<lparr>files := removeAll (incomplete_filename paths) fs\<rparr>))
             \<and> (rmtree_fails e (raw_path paths) \<or> raw_path paths \<notin> set (files w'))"
proof -
  let ?j = "default_label j"
  let ?inc = "incomplete_filename paths"
  let ?args = "[(''status'', PStr ''fail''), (''errors'', PStr (dd_error_message returncode output))]"
  let ?w2 = "w1\<lparr>files := removeAll ?inc fs\<rparr>"
  have u: "unlink ?inc (w1\<lparr>files := fs\<rparr>) = (Inr (), ?w2)"
    using part by (simp add: unlink_def)
  from database_updater_nonfatal[OF ok, of ?args ?j 90 ?w2] obtain w3 where
    w3: "database_updater e (Dict ?args) ?j 90 ?w2 = (Inr True, ?j ++ map_of (rev ?args), w3)"
      "files w3 = files ?w2"
    by blast
  have j': "?j ++ map_of (rev ?args) =
            ?j(''status'' \<mapsto> PStr ''fail'', ''errors'' \<mapsto> PStr (dd_error_message returncode output))"
    by (auto simp: fun_eq_iff map_add_def)
  have f3: "files (rmtree e (raw_path paths) w3) = files (rmtree e (raw_path paths) ?w2)"
    using w3(2) by (simp add: rmtree_def)
  have r: "rip_data e j w = (Inr False, ?j ++ map_of (rev ?args), rmtree e (raw_path paths) w3)"
    by (simp add: rip_data_def fs rip_to_def dd u w3(1) Let_def)
  have gone: "?inc \<notin> set (files (rmtree e (raw_path paths) ?w2))"
    using files_rmtree_subset[of e "raw_path paths" ?w2] by auto
  have staging: "rmtree_fails e (raw_path paths)
                 \<or> raw_path paths \<notin> set (files (rmtree e (raw_path paths) ?w2))"
    using files_rmtree[of e "raw_path paths" ?w2] by blast
  show ?thesis
    using r j' f3 gone staging dd_error_message_nonempty by auto
qed

lemma label_job_data: "py_str (getattr (default_label job_data) ''label'') = ''data-disc''"
  by (simp add: default_label_def job_data_def getattr_def setattr_def)

lemma filesystem_job_data:
  assumes "cfg e = cfg env0" "makedirs_fails e = (\<lambda>p. False)"
  shows "get_filesystem_in_order e (default_label job_data) world0 =
           (Inr data_disc_paths,
            world0\<lparr>files := [''/raw/data-disc'', ''/done/unidentified/data-disc'']\<rparr>)"
proof -
  have "getattr (default_label job_data) ''video_type'' = PNone"
    by (simp add: default_label_def job_data_def getattr_def setattr_def)
  then show ?thesis
    by (simp add: get_filesystem_in_order_def label_job_data assms env0_def world0_def
          make_dir_def path_join_def convert_job_type_def data_disc_paths_def Let_def)
qed

theorem rip_data_copy_fails_witness:
  "\<exists>w'. rip_data (env0\<lparr>run_cmd := dd_breaks_off\<rparr>) job_data world0 =
          (Inr False,
           (default_label job_data)(''status'' \<mapsto> PStr ''fail'',
              ''errors'' \<mapsto> PStr (dd_error_message 1 no_output)),
           w')
        \<and> files w' = [''/done/unidentified/data-disc'']"
proof -
  let ?e = "env0\<lparr>run_cmd := dd_breaks_off\<rparr>"
  let ?w1 = "world0\<lparr>files := [''/raw/data-disc'', ''/done/unidentified/data-disc'']\<rparr>"
  let ?fs = "[''/raw/data-disc'', ''/done/unidentified/data-disc'', ''/raw/data-disc/data-disc.part'']"
  have fs: "get_filesystem_in_order ?e (default_label job_data) world0 = (Inr data_disc_paths, ?w1)"
    by (rule filesystem_job_data) (simp_all add: env0_def)
  have dd: "run_cmd ?e (dd_cmd ?e (default_label job_data) (incomplete_filename data_disc_paths))
              (files ?w1) = (CalledProcessError 1 no_output, ?fs)"
    by (simp add: dd_breaks_off_def)
  have part: "incomplete_filename data_disc_paths \<in> set ?fs"
    by (simp add: data_disc_paths_def)
  have ok: "\<forall>k. nonfatal (commit_outcome ?e k)"
    by (simp add: nonfatal_def env0_def)
  have "files (rmtree ?e (raw_path data_disc_paths)
                 (?w1\<lparr>files := removeAll (incomplete_filename data_disc_paths) ?fs\<rparr>))
        = [''/done/unidentified/data-disc'']"
    by (simp add: rmtree_def below_def data_disc_paths_def env0_def)
  with rip_data_copy_fails[OF fs dd part ok] show ?thesis
    by auto
qed

text \<open>
  C8 as stated fails. When \<^verbatim>\<open>dd\<close> fails before it has made the partial file,
  \<^verbatim>\<open>os.unlink\<close> raises: the job keeps its status and the staging directory stays.
  When the commit of the failure fails with a disk error, \<^verbatim>\<open>database_updater\<close>
  raises: nothing is returned and the staging directory stays.
\<close>

theorem rip_data_counterexample:
  "rip_data (env0\<lparr>run_cmd := dd_no_medium\<rparr>) job_data world0 =
     (Inl (OSError ''/raw/data-disc/data-disc.part''), default_label job_data,
      world0\<lparr>files := [''/raw/data-disc'', ''/done/unidentified/data-disc'']\<rparr>)
   \<and> getattr (default_label job_data) ''status'' = PStr ''active''
   \<and> rip_data (env0\<lparr>run_cmd := dd_breaks_off, commit_outcome := (\<lambda>k. Failed ''disk I/O error'')\<rparr>)
        job_data world0 =
     (Inl (RuntimeError ''disk I/O error''),
      (default_label job_data)(''status'' \<mapsto> PStr ''fail'',
         ''errors'' \<mapsto> PStr (dd_error_message 1 no_output)),
      world0\<lparr>files := [''/raw/data-disc'', ''/done/unidentified/data-disc''], commits := 1\<rparr>)"
proof (intro conjI)
  let ?e = "env0\<lparr>run_cmd := dd_no_medium\<rparr>"
  have fs: "get_filesystem_in_order ?e (default_label job_data) world0 =
      (Inr data_disc_paths, world0\<lparr>files := [''/raw/data-disc'', ''/done/unidentified/data-disc'']\<rparr>)"
    by (rule filesystem_job_data) (simp_all add: env0_def)
  show "rip_data ?e job_data world0 =
     (Inl (OSError ''/raw/data-disc/data-disc.part''), default_label job_data,
      world0\<lparr>files := [''/raw/data-disc'', ''/done/unidentified/data-disc'']\<rparr>)"
    by (simp add: rip_data_def fs rip_to_def dd_no_medium_def unlink_def data_disc_paths_def
          Let_def)
next
  show "getattr (default_label job_data) ''status'' = PStr ''active''"
    by (simp add: default_label_def job_data_def getattr_def setattr_def)
next
  let ?e = "env0\<lparr>run_cmd := dd_breaks_off, commit_outcome := (\<lambda>k. Failed ''disk I/O error'')\<rparr>"
  let ?j = "default_label job_data"
  let ?w2 = "world0\<lparr>files := [''/raw/data-disc'', ''/done/unidentified/data-disc'']\<rparr>"
  let ?args = "[(''status'', PStr ''fail''), (''errors'', PStr (dd_error_message 1 no_output))]"
  have fs: "get_filesystem_in_order ?e ?j world0 = (Inr data_disc_paths, ?w2)"
    by (rule filesystem_job_data) (simp_all add: env0_def)
  have upd: "database_updater ?e (Dict ?args) ?j 90 ?w2
       = (Inl (RuntimeError ''disk I/O error''), ?j ++ map_of (rev ?args),
          ?w2\<lparr>commits := Suc (commits ?w2)\<rparr>)"
    by (rule database_updater_fatal) simp_all
  have j': "?j ++ map_of (rev ?args) =
            ?j(''status'' \<mapsto> PStr ''fail'', ''errors'' \<mapsto> PStr (dd_error_message 1 no_output))"
    by (auto simp: fun_eq_iff map_add_def)
  have c0: "commits world0 = 0"
    by (simp add: world0_def)
  have "unlink ''/raw/data-disc/data-disc.part''
          (?w2\<lparr>files := [''/raw/data-disc'', ''/done/unidentified/data-disc'',
                            ''/raw/data-disc/data-disc.part'']\<rparr>) = (Inr (), ?w2)"
    by (simp add: unlink_def)
  then show "rip_data ?e job_data world0 =
     (Inl (RuntimeError ''disk I/O error''),
      ?j(''status'' \<mapsto> PStr ''fail'', ''errors'' \<mapsto> PStr (dd_error_message 1 no_output)),
      world0\<lparr>files := [''/raw/data-disc'', ''/done/unidentified/data-disc''], commits := 1\<rparr>)"
    using upd
    by (simp add: rip_data_def fs rip_to_def dd_breaks_off_def data_disc_paths_def Let_def j' c0)
qed

lemma database_updater_job:
  "database_updater e (Dict kvs) j wait_time w = (res, j', w') \<Longrightarrow> j' = set_all kvs j"
  by (auto simp: database_updater_def Let_def split: prod.splits sum.splits)

lemma rip_to_label:
  "getattr (fst (snd (rip_to e j paths w))) ''label'' = getattr j ''label''"
proof -
  let ?args = "\<lambda>err. [(''status'', PStr ''fail''), (''errors'', PStr err)]"
  have "getattr (set_all (?args err) j) ''label'' = getattr j ''label''" for err
    by (simp add: set_all_def getattr_setattr)
  then show ?thesis
    by (auto simp: rip_to_def Let_def unlink_def rename_def
             split: prod.splits sum.splits proc_result.splits
             dest!: database_updater_job)
qed

lemma default_label_unset:
  assumes "getattr j ''label'' = PNone \<or> getattr j ''label'' = PStr []"
  shows "default_label j = setattr j ''label'' (PStr ''data-disc'')"
    and "default_label (setattr j ''label'' (PStr ''data-disc'')) = setattr j ''label'' (PStr ''data-disc'')"
    and "py_str (getattr (default_label j) ''label'') = ''data-disc''"
  using assms by (auto simp: default_label_def getattr_setattr)

text \<open>
  C10. For a job whose label is \<^verbatim>\<open>None\<close> or empty, \<^verbatim>\<open>rip_data\<close> does what it
  does for the same job labelled \<^verbatim>\<open>data-disc\<close>, and the job it leaves has this label.
  Whenever the directories are in order, the staging path is \<^verbatim>\<open>data-disc\<close> under the
  raw path, or \<^verbatim>\<open>data-disc_\<close> and the time when that exists; the partial file is
  \<^verbatim>\<open>data-disc.part\<close> in the staging path; the image is \<^verbatim>\<open>data-disc.iso\<close> in the
  final path.
\<close>

theorem rip_data_default_label:
  assumes "getattr j ''label'' = PNone \<or> getattr j ''label'' = PStr []"
  shows "rip_data e j w = rip_data e (setattr j ''label'' (PStr ''data-disc'')) w
       \<and> getattr (fst (snd (rip_data e j w))) ''label'' = PStr ''data-disc''
       \<and> (\<forall>paths w1. get_filesystem_in_order e (default_label j) w = (Inr paths, w1) \<longrightarrow>
             (raw_path paths = path_join (RAW_PATH (cfg e)) ''data-disc''
              \<or> raw_path paths = path_join (RAW_PATH (cfg e))
                                   (''data-disc_'' @ str_int (time_centis e)))
             \<and> incomplete_filename paths = path_join (raw_path paths) ''data-disc.part''
             \<and> full_final_file (default_label j) paths
                 = path_join (final_path paths) ''data-disc.iso'')"
proof (intro conjI allI impI)
  show "rip_data e j w = rip_data e (setattr j ''label'' (PStr ''data-disc'')) w"
    using default_label_unset(1,2)[OF assms] by (simp add: rip_data_def)
next
  have "getattr (default_label j) ''label'' = PStr ''data-disc''"
    using default_label_unset(1)[OF assms] by (simp add: getattr_setattr)
  then show "getattr (fst (snd (rip_data e j w))) ''label'' = PStr ''data-disc''"
    by (simp add: rip_data_def Let_def rip_to_label split: prod.splits sum.splits)
next
  fix paths w1
  assume a: "get_filesystem_in_order e (default_label j) w = (Inr paths, w1)"
  note l = default_label_unset(3)[OF assms]
  from a show "raw_path paths = path_join (RAW_PATH (cfg e)) ''data-disc''
              \<or> raw_path paths = path_join (RAW_PATH (cfg e))
                                   (''data-disc_'' @ str_int (time_centis e))"
    by (auto simp: get_filesystem_in_order_def l Let_def
             split: prod.splits sum.splits if_splits)
  from a show "incomplete_filename paths = path_join (raw_path paths) ''data-disc.part''"
    by (auto simp: get_filesystem_in_order_def l Let_def
             split: prod.splits sum.splits if_splits)
  show "full_final_file (default_label j) paths = path_join (final_path paths) ''data-disc.iso''"
    by (simp add: full_final_file_def l)
qed

theorem rip_data_default_label_witness:
  "rip_data (env0\<lparr>run_cmd := dd_copies\<rparr>) job_data world0
     = rip_data (env0\<lparr>run_cmd := dd_copies\<rparr>) (setattr job_data ''label'' (PStr ''data-disc'')) world0
   \<and> rip_data (env0\<lparr>run_cmd := dd_copies\<rparr>) job_data world0
     = (Inr True, job_data(''label'' \<mapsto> PStr ''data-disc''),
        world0\<lparr>files := [''/done/unidentified/data-disc'',
                           ''/done/unidentified/data-disc/data-disc.iso'']\<rparr>)
   \<and> incomplete_filename data_disc_paths = path_join (raw_path data_disc_paths) ''data-disc.part''
   \<and> full_final_file (default_label job_data) data_disc_paths
       = ''/done/unidentified/data-disc/data-disc.iso''"
proof -
  let ?e = "env0\<lparr>run_cmd := dd_copies\<rparr>"
  let ?w1 = "world0\<lparr>files := [''/raw/data-disc'', ''/done/unidentified/data-disc'']\<rparr>"
  have unset: "getattr job_data ''label'' = PNone \<or> getattr job_data ''label'' = PStr []"
    by (simp add: job_data_def getattr_def)
  have fs: "get_filesystem_in_order ?e (default_label job_data) world0 = (Inr data_disc_paths, ?w1)"
    by (rule filesystem_job_data) (simp_all add: env0_def)
  note t = rip_data_default_label[OF unset, of ?e world0]
  from t fs have p: "incomplete_filename data_disc_paths = path_join (raw_path data_disc_paths) ''data-disc.part''"
    "full_final_file (default_label job_data) data_disc_paths
       = path_join (final_path data_disc_paths) ''data-disc.iso''"
    by blast+
  have d: "default_label job_data = job_data(''label'' \<mapsto> PStr ''data-disc'')"
    using default_label_unset(1)[OF unset] by (simp add: setattr_def)
  have rf: "\<not> rmtree_fails env0 p" for p
    by (simp add: env0_def)
  have iso: "full_final_file (default_label job_data) data_disc_paths
       = ''/done/unidentified/data-disc/data-disc.iso''"
    using p(2) by (simp add: data_disc_paths_def path_join_def)
  have fields: "raw_path data_disc_paths = ''/raw/data-disc''"
    "incomplete_filename data_disc_paths = ''/raw/data-disc/data-disc.part''"
    by (simp_all add: data_disc_paths_def)
  have run: "rip_data ?e job_data world0
     = (Inr True, job_data(''label'' \<mapsto> PStr ''data-disc''),
        world0\<lparr>files := [''/done/unidentified/data-disc'',
                           ''/done/unidentified/data-disc/data-disc.iso'']\<rparr>)"
    by (simp add: rip_data_def fs rip_to_def dd_copies_def rename_def rmtree_def below_def
          iso fields rf Let_def d[symmetric])
  from t run p(1) iso show ?thesis
    by simp
qed

end
